theory Spec2Isabelle
  imports Complex_Main "HOL-Library.AList"
begin

section \<open>JavaScript values\<close>

text \<open>
  A JavaScript number as the map class tests it: \<open>undefined\<close>, \<open>NaN\<close> or a number.
  \<open>isNaN\<close> coerces its argument, so it holds of \<open>undefined\<close> as well as of \<open>NaN\<close>.
  Coordinates are rationals (every finite double is one); zoom levels are integers, as
  Leaflet snaps them with its default \<open>zoomSnap\<close> of 1. The infinities are left out.
\<close>

datatype 'a jsval = Undefined | NaN | Num 'a

fun isNaN :: "'a jsval \<Rightarrow> bool" where
  "isNaN (Num x) = False"
| "isNaN Undefined = True"
| "isNaN NaN = True"

section \<open>Leaflet geometry: \<open>L.LatLng\<close> and \<open>L.LatLngBounds\<close>\<close>

text \<open>An \<open>L.LatLng\<close> is a pair (latitude, longitude).\<close>

type_synonym latlng = "rat \<times> rat"

abbreviation lat :: "latlng \<Rightarrow> rat" where "lat \<equiv> fst"
abbreviation lng :: "latlng \<Rightarrow> rat" where "lng \<equiv> snd"

text \<open>
  A valid \<open>L.LatLngBounds\<close> is its pair of corners (south-west, north-east). A bounds
  object built without corners, for which \<open>isValid()\<close> is false, is \<open>None\<close>.
\<close>

type_synonym bounds = "latlng \<times> latlng"
type_synonym latLngBounds = "bounds option"

definition southWest :: "bounds \<Rightarrow> latlng" where "southWest b = fst b"
definition northEast :: "bounds \<Rightarrow> latlng" where "northEast b = snd b"

definition isValid :: "latLngBounds \<Rightarrow> bool" where
  "isValid b = (b \<noteq> None)"

text \<open>\<open>extend\<close> of a valid bounds object by corners \<open>sw2\<close>, \<open>ne2\<close>.\<close>

definition extend_corners :: "bounds \<Rightarrow> latlng \<Rightarrow> latlng \<Rightarrow> bounds" where
  "extend_corners b sw2 ne2 =
     ((min (lat sw2) (lat (southWest b)), min (lng sw2) (lng (southWest b))),
      (max (lat ne2) (lat (northEast b)), max (lng ne2) (lng (northEast b))))"

text \<open>
  What \<open>validateBounds\<close> hands to \<open>extend\<close>: \<open>false\<close>, an \<open>L.LatLng\<close> or an
  \<open>L.LatLngBounds\<close>.
\<close>

datatype geo = GFalse | GLatLng latlng | GBounds bounds

text \<open>
  \<open>L.LatLngBounds.extend(obj)\<close>: a falsy argument and a bounds object without corners
  leave the receiver as it is; the first point or bounds sets both corners.
\<close>

fun extend_obj :: "latLngBounds \<Rightarrow> geo \<Rightarrow> latLngBounds" where
  "extend_obj b GFalse = b"
| "extend_obj None (GLatLng p) = Some (p, p)"
| "extend_obj (Some b) (GLatLng p) = Some (extend_corners b p p)"
| "extend_obj None (GBounds b2) = Some (southWest b2, northEast b2)"
| "extend_obj (Some b) (GBounds b2) = Some (extend_corners b (southWest b2) (northEast b2))"

definition extend_bounds :: "latLngBounds \<Rightarrow> latLngBounds \<Rightarrow> latLngBounds" where
  "extend_bounds b obj = (case obj of None \<Rightarrow> b | Some b2 \<Rightarrow> extend_obj b (GBounds b2))"

text \<open>\<open>new L.LatLngBounds(latlngs)\<close> over a non-empty sequence of points.\<close>

definition bounds_of_points :: "latlng \<Rightarrow> latlng list \<Rightarrow> bounds" where
  "bounds_of_points p ps = fold (\<lambda>q b. extend_corners b q q) ps (p, p)"

text \<open>\<open>contains\<close>: the argument's corners lie within the receiver's.\<close>

definition contains_corners :: "bounds \<Rightarrow> latlng \<Rightarrow> latlng \<Rightarrow> bool" where
  "contains_corners b sw2 ne2 =
     (lat sw2 \<ge> lat (southWest b) \<and> lat ne2 \<le> lat (northEast b) \<and>
      lng sw2 \<ge> lng (southWest b) \<and> lng ne2 \<le> lng (northEast b))"

fun contains :: "bounds \<Rightarrow> geo \<Rightarrow> bool" where
  "contains b (GLatLng p) = contains_corners b p p"
| "contains b (GBounds b2) = contains_corners b (southWest b2) (northEast b2)"
| "contains b GFalse = False"

definition worldLatLng :: bounds where
  "worldLatLng = ((-90, -180), (90, 180))"

section \<open>Layers\<close>

text \<open>
  A ring is a non-empty sequence of positions (its first point and the rest), as GeoJSON
  requires of a line string and of a linear ring. A polygon is its outer ring and its
  further rings, so that \<open>getLatLngs()\<close> is never empty; multi-polygons, nested one level
  deeper, are not modelled. A shape is a layer without \<open>eachLayer\<close>; a layer group has it.
\<close>

type_synonym ring = "latlng \<times> latlng list"

definition ring_points :: "ring \<Rightarrow> latlng list" where
  "ring_points r = fst r # snd r"

datatype shape =
    TileLayer
  | Marker latlng
  | Polyline ring
  | Polygon ring "ring list"

datatype layer = Shape shape | LayerGroup "layer list"

text \<open>\<open>layer.getLatLngs()\<close> of a polygon: the list of its rings.\<close>

fun getLatLngs :: "shape \<Rightarrow> ring list" where
  "getLatLngs (Polygon outer rest) = outer # rest"
| "getLatLngs (Polyline r) = [r]"
| "getLatLngs _ = []"

text \<open>\<open>new L.LatLngBounds(rings)\<close> over a non-empty list of rings.\<close>

definition bounds_of_rings :: "ring \<Rightarrow> ring list \<Rightarrow> bounds" where
  "bounds_of_rings r rs = bounds_of_points (fst r) (snd r @ concat (map ring_points rs))"

text \<open>
  \<open>typeof layer.getBounds === 'function' && layer.getBounds()\<close> and the same for
  \<open>getLatLng\<close>: \<open>None\<close> stands for \<open>false\<close>.
\<close>

fun getBounds :: "shape \<Rightarrow> bounds option" where
  "getBounds (Polyline r) = Some (bounds_of_rings r [])"
| "getBounds (Polygon outer rest) = Some (bounds_of_rings outer rest)"
| "getBounds _ = None"

fun getLatLng :: "shape \<Rightarrow> latlng option" where
  "getLatLng (Marker p) = Some p"
| "getLatLng _ = None"

fun instanceof_Polygon :: "shape \<Rightarrow> bool" where
  "instanceof_Polygon (Polygon outer rest) = True"
| "instanceof_Polygon _ = False"

section \<open>BoundsFitter: \<open>validateBounds\<close> and \<open>getValidBounds\<close>\<close>

definition validateBounds :: "shape \<Rightarrow> geo" where
  "validateBounds layer =
     (let bounds = (case getBounds layer of
                      Some b \<Rightarrow> GBounds b
                    | None \<Rightarrow> (case getLatLng layer of Some p \<Rightarrow> GLatLng p | None \<Rightarrow> GFalse))
      in if contains worldLatLng bounds then bounds
         else if instanceof_Polygon layer then
           (case getLatLngs layer of
              outer # r # rs \<Rightarrow>
                (let bounds = GBounds (bounds_of_rings r rs)
                 in if contains worldLatLng bounds then bounds else GFalse)
            | _ \<Rightarrow> GFalse)
         else GFalse)"

fun getValidBounds :: "layer \<Rightarrow> latLngBounds" where
  "getValidBounds (LayerGroup children) =
     fold (\<lambda>child layerBounds. extend_bounds layerBounds (getValidBounds child)) children None"
| "getValidBounds (Shape s) = extend_obj None (validateBounds s)"

section \<open>Number formatting\<close>

text \<open>The decimal digits of a natural number, as \<open>String(n)\<close> gives them.\<close>

definition digit_char :: "nat \<Rightarrow> char" where
  "digit_char d = ''0123456789'' ! d"

fun nat_toString :: "nat \<Rightarrow> string" where
  "nat_toString n =
     (if n < 10 then [digit_char n] else nat_toString (n div 10) @ [digit_char (n mod 10)])"

declare nat_toString.simps [simp del]

definition int_toString :: "int \<Rightarrow> string" where
  "int_toString i = (if 0 \<le> i then nat_toString (nat i) else CHR ''-'' # nat_toString (nat (- i)))"

text \<open>String concatenation \<open>zoom + '/'\<close> converts the zoom with \<open>ToString\<close>.\<close>

fun to_string :: "int jsval \<Rightarrow> string" where
  "to_string Undefined = ''undefined''"
| "to_string NaN = ''NaN''"
| "to_string (Num z) = int_toString z"

text \<open>
  \<open>Number.prototype.toFixed(f)\<close> on a number below \<open>10^21\<close> in magnitude: the sign, then
  the integer \<open>n\<close> nearest to \<open>x * 10^f\<close> (the larger one on a tie), written with at least
  \<open>f + 1\<close> digits and a point before the last \<open>f\<close> of them.
\<close>

definition toFixed :: "rat \<Rightarrow> nat \<Rightarrow> string" where
  "toFixed x f =
     (let s = (if x < 0 then ''-'' else '''');
          n = nat \<lfloor>\<bar>x\<bar> * 10 ^ f + 1 / 2\<rfloor>;
          m = nat_toString n
      in if f = 0 then s @ m
         else (let m = replicate (f + 1 - length m) (CHR ''0'') @ m;
                   k = length m
               in s @ take (k - f) m @ ''.'' @ drop (k - f) m))"

text \<open>\<open>Array.prototype.join\<close>.\<close>

fun join :: "string \<Rightarrow> string list \<Rightarrow> string" where
  "join sep [] = ''''"
| "join sep [x] = x"
| "join sep (x # y # ys) = x @ sep @ join sep (y # ys)"

section \<open>The map object\<close>

definition precisionPerZoom :: "nat list" where
  "precisionPerZoom = [0, 0, 1, 2, 2, 3, 3, 3, 3, 4, 4, 4, 4, 4, 4, 4, 4, 5, 5]"

text \<open>The \<open>maxZoom\<close> option of the tile layer that \<open>initialize\<close> adds.\<close>

definition wikimediaLayer_maxZoom :: int where
  "wikimediaLayer_maxZoom = 19"

text \<open>
  \<open>precisionPerZoom[ zoom ]\<close>: an index that is not one of the array's is \<open>undefined\<close>,
  here \<open>None\<close>; so is the lookup at \<open>undefined\<close> or \<open>NaN\<close>.
\<close>

fun precisionPerZoom_at :: "int jsval \<Rightarrow> nat option" where
  "precisionPerZoom_at (Num z) =
     (if 0 \<le> z \<and> nat z < length precisionPerZoom then Some (precisionPerZoom ! nat z) else None)"
| "precisionPerZoom_at _ = None"

text \<open>\<open>x.toFixed(d)\<close> with \<open>d\<close> possibly \<open>undefined\<close>, which counts as 0 digits.\<close>

definition toFixed_js :: "rat \<Rightarrow> nat option \<Rightarrow> string" where
  "toFixed_js x d = toFixed x (case d of None \<Rightarrow> 0 | Some f \<Rightarrow> f)"

text \<open>
  A center as the callers pass it: absent, a two-element array (from the data attributes
  or the route) or an \<open>L.LatLng\<close>.
\<close>

datatype center_arg = CUndefined | CArray "rat jsval" "rat jsval" | CLatLng latlng

text \<open>The \<open>{ center, zoom }\<close> object kept in \<open>_initialPosition\<close>.\<close>

record position =
  p_center :: "latlng option"
  p_zoom :: "int jsval"

text \<open>
  Calls into the libraries around the map class (Leaflet, the sleep handler, the data
  loader, the dialog module, the log), in the order the code makes them.
\<close>

datatype call =
    L_setView latlng int
  | L_fitBounds bounds
  | L_fitWorld
  | L_setZoom int
  | Sleep_addHandler
  | Sleep_sleepMap
  | Sleep_disable
  | Sleep_enable
  | ScrollWheelZoom_disable
  | ScrollWheelZoom_enable
  | DoubleClickZoom_disable
  | Dragging_disable
  | Dragging_enable
  | TouchZoom_disable
  | TouchZoom_enable
  | ToggleClass_static bool
  | Loader_loadGroups "string list"
  | Loader_load
  | AddAttribution string
  | Log_exception
  | Log_warn string
  | Log_error string
  | Fire_kartographerisready
  | New_KartographerMap
  | Dialog_render

text \<open>
  GeoJSON is kept as the layers it renders to; \<open>Malformed\<close> is GeoJSON for which
  \<open>L.mapbox.featureLayer\<close> throws.
\<close>

datatype geojson = Features "layer list" | Malformed

fun featureLayer :: "geojson \<Rightarrow> layer option" where
  "featureLayer (Features ls) = Some (LayerGroup ls)"
| "featureLayer Malformed = None"

record layerOptions =
  lo_attribution :: string
  lo_name :: "string option"

record dataLayer =
  dl_layer :: layer
  dl_geoJSON :: geojson
  dl_options :: layerOptions

text \<open>
  The container element and the Leaflet map drawn in it. Whether the element is visible,
  and what center and zoom Leaflet computes for it, is given from outside: \<open>c_setView\<close>
  is the view after \<open>L.Map.prototype.setView\<close>, \<open>c_fitBounds\<close> after \<open>fitBounds\<close>,
  \<open>c_fitWorld\<close> after \<open>fitWorld\<close>, \<open>c_setZoom\<close> after \<open>setZoom\<close> from the view given;
  \<open>c_size_x\<close> is the width \<open>getSize().x\<close>.
\<close>

type_synonym view = "latlng \<times> int"

record container =
  c_visible :: bool
  c_size_x :: int
  c_setView :: "latlng \<Rightarrow> int \<Rightarrow> view"
  c_fitBounds :: "bounds \<Rightarrow> view"
  c_fitWorld :: view
  c_setZoom :: "int \<Rightarrow> view \<Rightarrow> view"

text \<open>
  The fields of a \<open>KartographerMap\<close> that the operations below read or write.
  \<open>view\<close> is Leaflet's center and zoom, \<open>None\<close> until a view is set; \<open>layers\<close> is what
  \<open>eachLayer\<close> enumerates; \<open>dataLayers\<close> keeps the insertion order of the object's keys;
  \<open>fullscreen\<close> is the property \<open>this.fullscreen\<close> (not the option), which nothing
  assigns; \<open>container_data\<close> is the zoom, longitude and latitude written to the
  container's data attributes.
\<close>

record kmap =
  container :: container
  view :: "view option"
  initialPosition :: "position option"
  layers :: "layer list"
  dataLayers :: "(string \<times> dataLayer) list"
  opt_fullscreen :: bool
  opt_link :: bool
  opt_fallbackZoom :: int
  fullscreen :: bool
  fullScreenRoute :: "string option"
  lang :: string
  featureType :: string
  captionText :: string
  container_data :: "(int \<times> rat \<times> rat) option"
  kartographer_ready :: bool
  updatingHash :: bool
  static :: "bool option"
  static_class :: bool
  invalidateSize_overridden :: bool
  staticTimer :: bool

section \<open>ViewStateController: \<open>initView\<close>, \<open>setView\<close>, \<open>getHash\<close>\<close>

text \<open>\<open>L.latLng\<close> of a two-element array; it throws on \<open>NaN\<close>, which the callers exclude.\<close>

fun latLng :: "rat jsval \<Rightarrow> rat jsval \<Rightarrow> latlng option" where
  "latLng (Num x) (Num y) = Some (x, y)"
| "latLng _ _ = None"

text \<open>
  The prologue shared by \<open>initView\<close> and \<open>setView\<close>: an array becomes an \<open>L.LatLng\<close>
  when neither entry is \<open>NaN\<close> and \<open>undefined\<close> otherwise; anything else is kept.
\<close>

fun resolveCenter :: "center_arg \<Rightarrow> latlng option" where
  "resolveCenter (CArray a b) = (if \<not> isNaN a \<and> \<not> isNaN b then latLng a b else None)"
| "resolveCenter (CLatLng p) = Some p"
| "resolveCenter CUndefined = None"

definition getInitialMapPosition :: "kmap \<Rightarrow> position option" where
  "getInitialMapPosition m = initialPosition m"

text \<open>\<open>initView(center, zoom, false)\<close>: the assignment to \<open>_initialPosition\<close> alone.\<close>

definition initView_false :: "kmap \<Rightarrow> center_arg \<Rightarrow> int jsval \<Rightarrow> kmap" where
  "initView_false m center zoom =
     (let center = resolveCenter center;
          zoom = (if isNaN zoom then Undefined else zoom)
      in m\<lparr>initialPosition := Some \<lparr>p_center = center, p_zoom = zoom\<rparr>\<rparr>)"

text \<open>
  \<open>setView(center, zoom, options, save)\<close>. The options are handed to Leaflet as they are
  and are left out. After \<open>fitBounds\<close> or \<open>fitWorld\<close> the map has a view, which
  \<open>getCenter()\<close> and \<open>getZoom()\<close> read in the save branch.
\<close>

definition setView :: "kmap \<Rightarrow> center_arg \<Rightarrow> int jsval \<Rightarrow> bool \<Rightarrow> kmap \<times> call list" where
  "setView m center zoom save =
     (let initial = getInitialMapPosition m in
      case resolveCenter center of
        Some center \<Rightarrow>
          (let zoom = (case zoom of Num z \<Rightarrow> z | _ \<Rightarrow> opt_fallbackZoom m)
           in (m\<lparr>view := Some (c_setView (container m) center zoom)\<rparr>, [L_setView center zoom]))
      | None \<Rightarrow>
          (let maxBounds = getValidBounds (LayerGroup (layers m));
               (v1, calls1) =
                 (case maxBounds of
                    Some b \<Rightarrow> (c_fitBounds (container m) b, [L_fitBounds b])
                  | None \<Rightarrow> (c_fitWorld (container m), [L_fitWorld]));
               (v2, calls2) =
                 (case initial of
                    Some ip \<Rightarrow>
                      (case p_zoom ip of
                         Num z \<Rightarrow> (c_setZoom (container m) z v1, [L_setZoom z])
                       | _ \<Rightarrow> (v1, []))
                  | None \<Rightarrow> (v1, []));
               m2 = m\<lparr>view := Some v2\<rparr>;
               m3 =
                 (if c_visible (container m2) \<and> save then
                    (let m' = initView_false m2 (CLatLng (fst v2)) (Num (snd v2))
                     in if \<not> fullscreen m'
                        then m'\<lparr>container_data := Some (snd v2, lng (fst v2), lat (fst v2))\<rparr>
                        else m')
                  else m2)
           in (m3, calls1 @ calls2)))"

text \<open>
  \<open>initView(center, zoom, setView)\<close>; \<open>sv\<close> is false only when the third argument is
  \<open>false\<close>. The center and zoom handed on to \<open>setView\<close> are the converted ones.
\<close>

definition initView :: "kmap \<Rightarrow> center_arg \<Rightarrow> int jsval \<Rightarrow> bool \<Rightarrow> kmap \<times> call list" where
  "initView m center zoom sv =
     (let m1 = initView_false m center zoom;
          center = (case resolveCenter center of Some c \<Rightarrow> CLatLng c | None \<Rightarrow> CUndefined);
          zoom = (if isNaN zoom then Undefined else zoom)
      in if sv then setView m1 center zoom True else (m1, []))"

text \<open>
  \<open>L.LatLng.wrap()\<close>: the longitude is brought into \<open>[-180, 180]\<close> with JavaScript's
  remainder, which truncates towards zero.
\<close>

definition js_rem :: "rat \<Rightarrow> rat \<Rightarrow> rat" where
  "js_rem a d = a - d * of_int (if 0 \<le> a / d then \<lfloor>a / d\<rfloor> else \<lceil>a / d\<rceil>)"

definition wrapNum :: "rat \<Rightarrow> rat" where
  "wrapNum x = (if x = 180 then x else js_rem (js_rem (x - (-180)) 360 + 360) 360 + (-180))"

definition wrap :: "latlng \<Rightarrow> latlng" where
  "wrap p = (lat p, wrapNum (lng p))"

text \<open>
  \<open>getMapPosition()\<close> without the \<open>scaled\<close> option, as this class calls it. Leaflet's
  \<open>getCenter\<close> throws while no view is set: \<open>None\<close>.
\<close>

definition getMapPosition :: "kmap \<Rightarrow> view option" where
  "getMapPosition m = (case view m of None \<Rightarrow> None | Some (center, zoom) \<Rightarrow> Some (wrap center, zoom))"

definition getZoom :: "kmap \<Rightarrow> int jsval" where
  "getZoom m = (case view m of None \<Rightarrow> Undefined | Some v \<Rightarrow> Num (snd v))"

definition getScaleLatLng :: "kmap \<Rightarrow> rat \<Rightarrow> rat \<Rightarrow> int jsval \<Rightarrow> string list" where
  "getScaleLatLng m la lo zoom =
     (let zoom = (if zoom = Undefined then getZoom m else zoom)
      in [toFixed_js la (precisionPerZoom_at zoom), toFixed_js lo (precisionPerZoom_at zoom)])"

datatype error = MapNotLoaded | NoInitialPosition | MapServerNotConfigured

text \<open>\<open>hash += ...\<close> on a route that is \<open>null\<close> concatenates onto \<open>"null"\<close>.\<close>

definition route_string :: "string option \<Rightarrow> string" where
  "route_string r = (case r of None \<Rightarrow> ''null'' | Some s \<Rightarrow> s)"

definition newHash_of :: "kmap \<Rightarrow> view \<Rightarrow> string" where
  "newHash_of m currentPosition =
     to_string (Num (snd currentPosition)) @ ''/'' @
     join ''/'' (getScaleLatLng m (lat (fst currentPosition)) (lng (fst currentPosition))
                  (Num (snd currentPosition)))"

text \<open>\<open>initialHash\<close> is \<open>undefined\<close>, here \<open>None\<close>, when the initial center is.\<close>

definition initialHash_of :: "kmap \<Rightarrow> position \<Rightarrow> string option" where
  "initialHash_of m initial =
     (case p_center initial of
        None \<Rightarrow> None
      | Some c \<Rightarrow>
          Some (to_string (p_zoom initial) @ ''/'' @
                join ''/'' (getScaleLatLng m (lat c) (lng c) (p_zoom initial))))"

definition getHash :: "kmap \<Rightarrow> error + string option" where
  "getHash m =
     (case initialPosition m of
        None \<Rightarrow> Inr (fullScreenRoute m)
      | Some initial \<Rightarrow>
          (case getMapPosition m of
             None \<Rightarrow> Inl MapNotLoaded
           | Some currentPosition \<Rightarrow>
               (let hash = fullScreenRoute m;
                    newHash = newHash_of m currentPosition;
                    initialHash = initialHash_of m initial
                in if Some newHash \<noteq> initialHash
                   then Inr (Some (route_string hash @ ''/'' @ newHash))
                   else Inr hash)))"

section \<open>ResponsiveModeController: \<open>toggleStaticState\<close>\<close>

text \<open>
  \<open>toggleStaticState()\<close>, given \<open>window.innerWidth\<close> and the width \<open>getSize().x\<close> of
  the map at the time of the call.
\<close>

definition toggleStaticState :: "kmap \<Rightarrow> int \<Rightarrow> int \<Rightarrow> kmap \<times> call list" where
  "toggleStaticState m innerWidth size_x =
     (let deviceWidth = innerWidth;
          isSmallWindow = (deviceWidth \<le> 480);
          staticMap = (isSmallWindow \<or> size_x + 200 > deviceWidth)
      in if static m = Some staticMap then (m, [])
         else (m\<lparr>static := Some staticMap, static_class := staticMap\<rparr>,
               (if staticMap then [Sleep_sleepMap, Sleep_disable, ScrollWheelZoom_disable]
                else [Sleep_enable]) @
               [ToggleClass_static staticMap]))"

text \<open>
  \<open>_invalidateInteractive()\<close> adds the sleep handler, replaces \<open>invalidateSize\<close> by the
  debouncing one and sets the first state.
\<close>

definition invalidateInteractive :: "kmap \<Rightarrow> int \<Rightarrow> int \<Rightarrow> kmap \<times> call list" where
  "invalidateInteractive m innerWidth size_x =
     (let (m', calls) = toggleStaticState (m\<lparr>invalidateSize_overridden := True\<rparr>) innerWidth size_x
      in (m', Sleep_addHandler # calls))"

text \<open>
  \<open>invalidateSize()\<close>: where it was replaced, and the map is not full screen, the pending
  timer is cleared and a new one is set. \<open>staticTimer_fires\<close> is the timer running
  \<open>toggleStaticState\<close>, 200 ms after the last \<open>invalidateSize\<close>.
\<close>

definition invalidateSize :: "kmap \<Rightarrow> kmap" where
  "invalidateSize m =
     (if invalidateSize_overridden m
      then (if opt_fullscreen m then m else m\<lparr>staticTimer := True\<rparr>)
      else m)"

definition staticTimer_fires :: "kmap \<Rightarrow> int \<Rightarrow> int \<Rightarrow> kmap \<times> call list" where
  "staticTimer_fires m innerWidth size_x =
     (if staticTimer m then toggleStaticState (m\<lparr>staticTimer := False\<rparr>) innerWidth size_x
      else (m, []))"

definition invalidateSizeAndSetInitialView :: "kmap \<Rightarrow> kmap \<times> call list" where
  "invalidateSizeAndSetInitialView m =
     (let position = getInitialMapPosition m;
          m1 = invalidateSize m
      in case position of
           Some p \<Rightarrow>
             initView m1 (case p_center p of Some c \<Rightarrow> CLatLng c | None \<Rightarrow> CUndefined)
               (p_zoom p) True
         | None \<Rightarrow> (m1, []))"

section \<open>DataLayerStore: \<open>addGeoJSONLayer\<close>, \<open>addDataGroups\<close>, \<open>addDataLayer\<close>\<close>

text \<open>
  A data group as the loader hands it over. \<open>g_geoJSON\<close> is \<open>None\<close> when
  \<open>getGeoJSON()\<close> is empty (\<open>$.isEmptyObject\<close> holds of it).
\<close>

record group =
  g_id :: string
  g_attribution :: string
  g_isExternal :: bool
  g_geoJSON :: "geojson option"

datatype 'a promise = Resolved 'a | Rejected

text \<open>
  The loader service \<open>DataManagerFactory()\<close> is a parameter: what its \<open>loadGroups\<close> and
  \<open>load\<close> promises settle to. A promise that never settles is not modelled.
\<close>

record loader =
  loadGroups :: "string list \<Rightarrow> group list promise"
  load :: "geojson \<Rightarrow> group list promise"

text \<open>
  \<open>addGeoJSONLayer\<close>: the layer is added to the map and recorded under its group id; an
  exception of \<open>L.mapbox.featureLayer\<close> is caught and logged.
\<close>

definition addGeoJSONLayer :: "kmap \<Rightarrow> string \<Rightarrow> geojson \<Rightarrow> layerOptions \<Rightarrow> kmap \<times> call list" where
  "addGeoJSONLayer m groupId geoJson options =
     (case featureLayer geoJson of
        Some layer \<Rightarrow>
          (m\<lparr>layers := layers m @ [layer],
             dataLayers := AList.update groupId
               \<lparr>dl_layer = layer, dl_geoJSON = geoJson, dl_options = options\<rparr> (dataLayers m)\<rparr>,
           [AddAttribution (lo_attribution options)])
      | None \<Rightarrow> (m, [Log_exception]))"

text \<open>The body of the loop over the loaded groups; the warning is logged with the id.\<close>

definition addGroup :: "kmap \<Rightarrow> string \<Rightarrow> string \<Rightarrow> group \<Rightarrow> kmap \<times> call list" where
  "addGroup m groupId attribution g =
     (let layerOptions = \<lparr>lo_attribution = attribution,
                           lo_name = (if g_isExternal g then Some (g_attribution g) else None)\<rparr>
      in case g_geoJSON g of
           Some geoJson \<Rightarrow> addGeoJSONLayer m groupId geoJson layerOptions
         | None \<Rightarrow> (m, [Log_warn groupId]))"

fun eachGroup :: "kmap \<Rightarrow> group list \<Rightarrow> kmap \<times> call list" where
  "eachGroup m [] = (m, [])"
| "eachGroup m (g # gs) =
     (let (m1, calls1) = addGroup m (g_id g) (g_attribution g) g;
          (m2, calls2) = eachGroup m1 gs
      in (m2, calls1 @ calls2))"

text \<open>
  \<open>addDataGroups\<close>, with the state of the promise it returns. Without data groups the
  loader is not called.
\<close>

definition addDataGroups :: "loader \<Rightarrow> kmap \<Rightarrow> string list \<Rightarrow> kmap \<times> call list \<times> unit promise" where
  "addDataGroups ld m dataGroups =
     (if dataGroups = [] then (m, [], Resolved ())
      else case loadGroups ld dataGroups of
             Resolved gs \<Rightarrow>
               (let (m', calls) = eachGroup m gs
                in (m', Loader_loadGroups dataGroups # calls, Resolved ()))
           | Rejected \<Rightarrow> (m, [Loader_loadGroups dataGroups], Rejected))"

text \<open>
  \<open>addDataLayer\<close> for inline data. The group ids come from the counter
  \<open>inlineDataLayerId\<close> of the module, which is passed in and handed back.
\<close>

definition inlineDataLayerKey :: string where
  "inlineDataLayerKey = ''kartographer-inline-data-layer''"

fun eachInlineGroup :: "kmap \<Rightarrow> nat \<Rightarrow> string \<Rightarrow> group list \<Rightarrow> kmap \<times> nat \<times> call list" where
  "eachInlineGroup m inlineDataLayerId attribution [] = (m, inlineDataLayerId, [])"
| "eachInlineGroup m inlineDataLayerId attribution (g # gs) =
     (let groupId = inlineDataLayerKey @ nat_toString inlineDataLayerId;
          (m1, calls1) =
            addGroup m groupId
              (if g_attribution g \<noteq> [] then g_attribution g else attribution) g;
          (m2, n, calls2) = eachInlineGroup m1 (inlineDataLayerId + 1) attribution gs
      in (m2, n, calls1 @ calls2))"

definition addDataLayer ::
  "loader \<Rightarrow> kmap \<Rightarrow> nat \<Rightarrow> geojson \<Rightarrow> string \<Rightarrow> kmap \<times> nat \<times> call list \<times> unit promise" where
  "addDataLayer ld m inlineDataLayerId groupData attribution =
     (case load ld groupData of
        Resolved dataGroups \<Rightarrow>
          (let (m', n, calls) = eachInlineGroup m inlineDataLayerId attribution dataGroups
           in (m', n, Loader_load # calls, Resolved ()))
      | Rejected \<Rightarrow> (m, inlineDataLayerId, [Loader_load], Rejected))"

section \<open>Construction: \<open>initialize\<close>\<close>

text \<open>An option that may be the string \<open>'auto'\<close>.\<close>

datatype 'a auto = Auto | Given 'a

record options =
  o_container :: container
  o_center :: "center_arg auto"
  o_zoom :: "int jsval auto"
  o_dataGroups :: "string list"
  o_data :: "geojson option"
  o_alwaysInteractive :: bool
  o_fullscreen :: bool
  o_link :: bool
  o_fullScreenRoute :: "string option"
  o_lang :: string
  o_featureType :: string
  o_captionText :: string
  o_parentMap :: "kmap option"

text \<open>
  The configuration and the window: \<open>wgKartographerMapServer\<close>,
  \<open>wgKartographerFallbackZoom\<close>, \<open>window.innerWidth\<close>, and the element that
  \<open>L.DomUtil.create\<close> makes for the full-screen map.
\<close>

record env =
  mapServer :: "string option"
  fallbackZoom :: int
  innerWidth :: int
  dialog_div :: container

text \<open>
  The function \<open>ready\<close> inside \<open>initialize\<close>. The listener that \<open>initialize\<close> put on
  \<open>kartographerisready\<close> sets \<open>_kartographer_ready\<close>.
\<close>

definition ready :: "kmap \<Rightarrow> center_arg \<Rightarrow> int jsval \<Rightarrow> kmap \<times> call list" where
  "ready m center zoom =
     (let (m', calls) = initView m center zoom True
      in (m'\<lparr>kartographer_ready := True\<rparr>,
          calls @ [Dragging_enable, TouchZoom_enable, Fire_kartographerisready]))"

text \<open>The loop over \<open>parentMap.dataLayers\<close> in the constructor of a full-screen map.\<close>

fun copyDataLayers :: "kmap \<Rightarrow> (string \<times> dataLayer) list \<Rightarrow> kmap \<times> call list" where
  "copyDataLayers m [] = (m, [])"
| "copyDataLayers m ((groupId, layer) # rest) =
     (let (m1, calls1) = addGeoJSONLayer m groupId (dl_geoJSON layer) (dl_options layer);
          (m2, calls2) = copyDataLayers m1 rest
      in (m2, calls1 @ calls2))"

text \<open>
  The first part of \<open>initialize(options)\<close>: the fields, the tile layer, and the static
  or interactive state unless the map is full screen or always interactive. Panning and
  touch zoom stay off until \<open>ready\<close>.
\<close>

definition construct_map :: "env \<Rightarrow> options \<Rightarrow> kmap \<times> call list" where
  "construct_map e opts =
     (let m0 = \<lparr>container = o_container opts, view = None, initialPosition = None,
                layers = [Shape TileLayer], dataLayers = [],
                opt_fullscreen = o_fullscreen opts, opt_link = o_link opts,
                opt_fallbackZoom = fallbackZoom e, fullscreen = False,
                fullScreenRoute = o_fullScreenRoute opts, lang = o_lang opts,
                featureType = o_featureType opts, captionText = o_captionText opts,
                container_data = None, kartographer_ready = False, updatingHash = False,
                static = None, static_class = False, invalidateSize_overridden = False,
                staticTimer = False\<rparr>;
          calls0 = (if \<not> o_fullscreen opts then [DoubleClickZoom_disable] else []);
          (m1, calls1) =
            (if \<not> o_fullscreen opts \<and> \<not> o_alwaysInteractive opts
             then invalidateInteractive m0 (innerWidth e) (c_size_x (o_container opts))
             else (m0, []))
      in (m1, calls0 @ calls1 @ [Dragging_disable, TouchZoom_disable]))"

text \<open>
  \<open>initialize(options)\<close>: the constructor throws when no map server is configured;
  otherwise the map is constructed, the data layers are copied from the parent map or
  loaded, and \<open>ready\<close> runs. The result is the map, the counter of inline layers and the
  calls made. When the promise of \<open>addDataLayer\<close> is rejected nothing is registered for
  it and \<open>ready\<close> does not run.
\<close>

definition initialize :: "env \<Rightarrow> loader \<Rightarrow> nat \<Rightarrow> options \<Rightarrow> error + kmap \<times> nat \<times> call list" where
  "initialize e ld inlineDataLayerId opts =
     (if mapServer e = None then Inl MapServerNotConfigured
      else
        (let center = (case o_center opts of Auto \<Rightarrow> CUndefined | Given c \<Rightarrow> c);
             zoom = (case o_zoom opts of Auto \<Rightarrow> Undefined | Given z \<Rightarrow> z);
             (m1, calls2) = construct_map e opts
         in case o_parentMap opts of
              Some parentMap \<Rightarrow>
                (let (m2, calls3) = copyDataLayers m1 (dataLayers parentMap);
                     (m3, calls4) = ready m2 center zoom
                 in Inr (m3, inlineDataLayerId, calls2 @ calls3 @ calls4))
            | None \<Rightarrow>
                (case addDataGroups ld m1 (o_dataGroups opts) of
                   (m2, calls3, Resolved u) \<Rightarrow>
                     (case o_data opts of
                        Some data \<Rightarrow>
                          (case addDataLayer ld m2 inlineDataLayerId data [] of
                             (m3, n, calls4, Resolved u) \<Rightarrow>
                               (let (m4, calls5) = ready m3 center zoom
                                in Inr (m4, n, calls2 @ calls3 @ calls4 @ calls5))
                           | (m3, n, calls4, Rejected) \<Rightarrow>
                               Inr (m3, n, calls2 @ calls3 @ calls4))
                      | None \<Rightarrow>
                          (let (m3, calls4) = ready m2 center zoom
                           in Inr (m3, inlineDataLayerId, calls2 @ calls3 @ calls4)))
                 | (m2, calls3, Rejected) \<Rightarrow>
                     (let (m3, calls4) = ready m2 center zoom
                      in Inr (m3, inlineDataLayerId,
                              calls2 @ calls3 @ calls4 @
                              [Log_error ''Unable to add datalayers to map.''])))))"

section \<open>FullScreenController: \<open>openFullScreen\<close>\<close>

text \<open>
  A map together with its \<open>fullScreenMap\<close> and the callbacks that \<open>doWhenReady\<close> holds
  back until \<open>kartographerisready\<close>: the position arguments of the pending
  \<open>openFullScreen\<close> calls.
\<close>

record fs_position =
  fp_center :: center_arg
  fp_zoom :: "int jsval"

record world =
  w_map :: kmap
  fullScreenMap :: "kmap option"
  whenReady :: "fs_position option list"

text \<open>\<open>initialize\<close> sets \<open>fullScreenMap\<close> to \<open>null\<close>; no callback waits yet.\<close>

definition new_world :: "kmap \<Rightarrow> world" where
  "new_world m = \<lparr>w_map = m, fullScreenMap = None, whenReady = []\<rparr>"

text \<open>
  The options with which \<open>openFullScreen\<close> constructs the full-screen map; its
  container is an element just created, outside the document and so not visible.
\<close>

definition child_options :: "env \<Rightarrow> kmap \<Rightarrow> fs_position \<Rightarrow> options" where
  "child_options e this position =
     \<lparr>o_container = (dialog_div e)\<lparr>c_visible := False\<rparr>,
      o_center = Given (fp_center position),
      o_zoom = Given (fp_zoom position),
      o_dataGroups = [], o_data = None,
      o_alwaysInteractive = False, o_fullscreen = True, o_link = False,
      o_fullScreenRoute = fullScreenRoute this, o_lang = lang this,
      o_featureType = featureType this,
      o_captionText = captionText this,
      o_parentMap = Some this\<rparr>"

text \<open>Writing back the map that \<open>openFullScreen\<close> worked on: the map itself for a link.\<close>

definition store_target :: "world \<Rightarrow> kmap \<Rightarrow> world" where
  "store_target w fsmap =
     (if opt_link (w_map w) then w\<lparr>w_map := fsmap\<rparr> else w\<lparr>fullScreenMap := Some fsmap\<rparr>)"

text \<open>
  The callback of \<open>openFullScreen\<close>, run when the map is ready. The dialog module is
  taken to load, so that \<open>render\<close> is called. Leaflet throws in \<open>getMapPosition\<close> while
  no view is set; reading \<open>_initialPosition.center\<close> throws while there is no initial
  position.
\<close>

definition openFullScreen_ready ::
  "env \<Rightarrow> loader \<Rightarrow> nat \<Rightarrow> world \<Rightarrow> fs_position option \<Rightarrow> error + world \<times> call list" where
  "openFullScreen_ready e ld inlineDataLayerId w position =
     (let this = w_map w;
          fsmap = (if opt_link this then Some this else fullScreenMap w)
      in case (case position of
                 Some p \<Rightarrow> Inr p
               | None \<Rightarrow>
                   (case getMapPosition this of
                      Some (c, z) \<Rightarrow> Inr \<lparr>fp_center = CLatLng c, fp_zoom = Num z\<rparr>
                    | None \<Rightarrow> Inl MapNotLoaded)) of
           Inl err \<Rightarrow> Inl err
         | Inr position \<Rightarrow>
             (case fsmap of
                None \<Rightarrow>
                  (case initialize e ld inlineDataLayerId (child_options e this position) of
                     Inl err \<Rightarrow> Inl err
                   | Inr (fsmap, n, calls) \<Rightarrow>
                       (case initialPosition this of
                          None \<Rightarrow> Inl NoInitialPosition
                        | Some initial \<Rightarrow>
                            (let fsmap = initView_false fsmap
                                   (case p_center initial of
                                      Some c \<Rightarrow> CLatLng c | None \<Rightarrow> CUndefined)
                                   (p_zoom initial)
                             in Inr (w\<lparr>fullScreenMap := Some fsmap\<rparr>,
                                     New_KartographerMap # calls @ [Dialog_render]))))
              | Some fsmap \<Rightarrow>
                  (if updatingHash fsmap
                   then Inr (store_target w (fsmap\<lparr>updatingHash := False\<rparr>), [])
                   else (let (fsmap', calls) = setView fsmap (fp_center position) (fp_zoom position) False
                         in Inr (store_target w fsmap', calls @ [Dialog_render])))))"

text \<open>\<open>openFullScreen(position)\<close>: now when the map is ready, else on the event.\<close>

definition openFullScreen ::
  "env \<Rightarrow> loader \<Rightarrow> nat \<Rightarrow> world \<Rightarrow> fs_position option \<Rightarrow> error + world \<times> call list" where
  "openFullScreen e ld inlineDataLayerId w position =
     (if kartographer_ready (w_map w) then openFullScreen_ready e ld inlineDataLayerId w position
      else Inr (w\<lparr>whenReady := whenReady w @ [position]\<rparr>, []))"

section \<open>Properties of the number formatting\<close>

lemma nat_toString_small: "n < 10 \<Longrightarrow> nat_toString n = [digit_char n]"
  by (simp add: nat_toString.simps)

lemma nat_toString_big:
  "\<not> n < 10 \<Longrightarrow> nat_toString n = nat_toString (n div 10) @ [digit_char (n mod 10)]"
  by (subst nat_toString.simps) simp

lemma floor_rat_numeral: "\<lfloor>numeral a / numeral b :: rat\<rfloor> = numeral a div numeral b"
  using floor_divide_of_int_eq [of "numeral a" "numeral b", where ?'a = rat] by simp

lemma floor_rat_one_numeral: "\<lfloor>1 / numeral b :: rat\<rfloor> = 1 div numeral b"
  using floor_divide_of_int_eq [of 1 "numeral b", where ?'a = rat] by simp

lemma replicate_numeral: "replicate (numeral k) x = x # replicate (pred_numeral k) x"
  by (simp add: numeral_eq_Suc)

lemma digit_char_in: "d < 10 \<Longrightarrow> digit_char d \<in> set ''0123456789''"
  unfolding digit_char_def by (rule nth_mem) simp

lemma digit_char_inj: "a < 10 \<Longrightarrow> b < 10 \<Longrightarrow> digit_char a = digit_char b \<Longrightarrow> a = b"
  unfolding digit_char_def by (subst (asm) nth_eq_iff_index_eq) simp_all

lemma nat_toString_chars: "set (nat_toString n) \<subseteq> set ''0123456789''"
proof (induction n rule: nat_toString.induct)
  case (1 n)
  show ?case
  proof (cases "n < 10")
    case True
    have "nat_toString n = [digit_char n]"
      using True by (rule nat_toString_small)
    then show ?thesis
      using digit_char_in [OF True] by simp
  next
    case False
    have eq: "nat_toString n = nat_toString (n div 10) @ [digit_char (n mod 10)]"
      using False by (rule nat_toString_big)
    have "n mod 10 < 10" by simp
    then have d: "digit_char (n mod 10) \<in> set ''0123456789''" by (rule digit_char_in)
    have ih: "set (nat_toString (n div 10)) \<subseteq> set ''0123456789''"
      using False by (rule 1)
    show ?thesis
      unfolding eq using d ih by simp
  qed
qed

lemma nat_toString_nonempty: "nat_toString n \<noteq> []"
proof (cases "n < 10")
  case True
  then have "nat_toString n = [digit_char n]"
    by (rule nat_toString_small)
  then show ?thesis by simp
next
  case False
  then have "nat_toString n = nat_toString (n div 10) @ [digit_char (n mod 10)]"
    by (rule nat_toString_big)
  then show ?thesis by simp
qed

lemma nat_toString_inj: "nat_toString n = nat_toString m \<Longrightarrow> n = m"
proof (induction n arbitrary: m rule: nat_toString.induct)
  case (1 n)
  note eq = \<open>nat_toString n = nat_toString m\<close>
  show ?case
  proof (cases "n < 10")
    case n: True
    have sn: "nat_toString n = [digit_char n]"
      using n by (rule nat_toString_small)
    show ?thesis
    proof (cases "m < 10")
      case True
      have sm: "nat_toString m = [digit_char m]"
        using True by (rule nat_toString_small)
      from eq have "digit_char n = digit_char m"
        unfolding sn sm by simp
      with n True show ?thesis
        by (rule digit_char_inj)
    next
      case False
      have sm: "nat_toString m = nat_toString (m div 10) @ [digit_char (m mod 10)]"
        using False by (rule nat_toString_big)
      from eq have "nat_toString (m div 10) = []"
        unfolding sn sm by simp
      then show ?thesis
        using nat_toString_nonempty by blast
    qed
  next
    case n: False
    have sn: "nat_toString n = nat_toString (n div 10) @ [digit_char (n mod 10)]"
      using n by (rule nat_toString_big)
    show ?thesis
    proof (cases "m < 10")
      case True
      have sm: "nat_toString m = [digit_char m]"
        using True by (rule nat_toString_small)
      from eq have "nat_toString (n div 10) = []"
        unfolding sn sm by simp
      then show ?thesis
        using nat_toString_nonempty by blast
    next
      case False
      have sm: "nat_toString m = nat_toString (m div 10) @ [digit_char (m mod 10)]"
        using False by (rule nat_toString_big)
      from eq have e: "nat_toString (n div 10) = nat_toString (m div 10)"
        and d: "digit_char (n mod 10) = digit_char (m mod 10)"
        unfolding sn sm by simp_all
      have q: "n div 10 = m div 10"
        using n e by (rule 1(1))
      have r: "n mod 10 = m mod 10"
        by (rule digit_char_inj [OF _ _ d]) simp_all
      have "n = n div 10 * 10 + n mod 10" by simp
      also have "\<dots> = m div 10 * 10 + m mod 10" by (simp only: q r)
      also have "\<dots> = m" by simp
      finally show ?thesis .
    qed
  qed
qed

lemma nat_toString_not_in: "c \<notin> set ''0123456789'' \<Longrightarrow> c \<notin> set (nat_toString n)"
  using nat_toString_chars [of n] by blast

lemma nat_toString_no_minus: "CHR ''-'' \<notin> set (nat_toString n)"
  by (rule nat_toString_not_in) simp

lemma nat_toString_no_slash: "CHR ''/'' \<notin> set (nat_toString n)"
  by (rule nat_toString_not_in) simp

lemma int_toString_not_in:
  "c \<notin> set ''0123456789'' \<Longrightarrow> c \<noteq> CHR ''-'' \<Longrightarrow> c \<notin> set (int_toString i)"
proof -
  assume c: "c \<notin> set ''0123456789''" and m: "c \<noteq> CHR ''-''"
  have "c \<notin> set (nat_toString (nat i))" "c \<notin> set (nat_toString (nat (- i)))"
    using c by (rule nat_toString_not_in)+
  with m show ?thesis
    unfolding int_toString_def by simp
qed

lemma int_toString_inj: "int_toString i = int_toString j \<Longrightarrow> i = j"
proof -
  assume eq: "int_toString i = int_toString j"
  have clash: "\<And>a b. CHR ''-'' # nat_toString a \<noteq> nat_toString b"
  proof
    fix a b assume "CHR ''-'' # nat_toString a = nat_toString b"
    then have "CHR ''-'' \<in> set (nat_toString b)"
      by (metis list.set_intros(1))
    then show False using nat_toString_no_minus by blast
  qed
  show "i = j"
  proof (cases "i < 0"; cases "j < 0")
    assume i: "i < 0" and j: "j < 0"
    with eq have "nat_toString (nat (- i)) = nat_toString (nat (- j))"
      by (simp add: int_toString_def)
    then have "nat (- i) = nat (- j)"
      by (rule nat_toString_inj)
    with i j show ?thesis by simp
  next
    assume "i < 0" "\<not> j < 0"
    with eq clash [of "nat (- i)" "nat j"] show ?thesis
      by (simp add: int_toString_def)
  next
    assume "\<not> i < 0" "j < 0"
    with eq clash [of "nat (- j)" "nat i"] show ?thesis
      by (simp add: int_toString_def)
  next
    assume i: "\<not> i < 0" and j: "\<not> j < 0"
    with eq have "nat_toString (nat i) = nat_toString (nat j)"
      by (simp add: int_toString_def)
    then have "nat i = nat j"
      by (rule nat_toString_inj)
    with i j show ?thesis by simp
  qed
qed

lemma to_string_inj: "to_string v = to_string w \<Longrightarrow> v = w"
proof -
  assume eq: "to_string v = to_string w"
  have u: "int_toString z \<noteq> ''undefined''" for z
  proof
    assume "int_toString z = ''undefined''"
    then have "CHR ''u'' \<in> set (int_toString z)" by simp
    moreover have "CHR ''u'' \<notin> set (int_toString z)"
      by (rule int_toString_not_in) simp_all
    ultimately show False by blast
  qed
  have n: "int_toString z \<noteq> ''NaN''" for z
  proof
    assume "int_toString z = ''NaN''"
    then have "CHR ''N'' \<in> set (int_toString z)" by simp
    moreover have "CHR ''N'' \<notin> set (int_toString z)"
      by (rule int_toString_not_in) simp_all
    ultimately show False by blast
  qed
  show "v = w"
  proof (cases v; cases w)
    fix a b assume ab: "v = Num a" "w = Num b"
    with eq have "int_toString a = int_toString b" by simp
    then have "a = b" by (rule int_toString_inj)
    with ab show ?thesis by simp
  qed (use eq u n u [symmetric] n [symmetric] in simp_all)
qed

lemma to_string_no_slash: "CHR ''/'' \<notin> set (to_string v)"
proof (cases v)
  case (Num z)
  have "CHR ''/'' \<notin> set (int_toString z)"
    by (rule int_toString_not_in) simp_all
  with Num show ?thesis by simp
qed simp_all

lemma toFixed_no_slash: "CHR ''/'' \<notin> set (toFixed x f)"
proof -
  define n where "n = nat \<lfloor>\<bar>x\<bar> * 10 ^ f + 1 / 2\<rfloor>"
  define m where "m = replicate (f + 1 - length (nat_toString n)) (CHR ''0'') @ nat_toString n"
  have m: "CHR ''/'' \<notin> set m"
    using nat_toString_no_slash [of n] by (auto simp: m_def)
  have t: "CHR ''/'' \<notin> set (take (length m - f) m)"
    using m by (auto dest: in_set_takeD)
  have d: "CHR ''/'' \<notin> set (drop (length m - f) m)"
    using m by (auto dest: in_set_dropD)
  have "toFixed x f =
          (if x < 0 then ''-'' else []) @
          (if f = 0 then nat_toString n
           else take (length m - f) m @ ''.'' @ drop (length m - f) m)"
    by (simp add: toFixed_def Let_def n_def m_def)
  then show ?thesis
    using nat_toString_no_slash [of n] t d by simp
qed

lemma toFixed_js_no_slash: "CHR ''/'' \<notin> set (toFixed_js x d)"
  unfolding toFixed_js_def by (rule toFixed_no_slash)

lemma split_at_slash:
  "CHR ''/'' \<notin> set a \<Longrightarrow> CHR ''/'' \<notin> set b \<Longrightarrow>
   a @ CHR ''/'' # r = b @ CHR ''/'' # s \<longleftrightarrow> a = b \<and> r = s"
proof (induction a arbitrary: b)
  case Nil
  then show ?case by (cases b) auto
next
  case (Cons x xs)
  then show ?case by (cases b) auto
qed

section \<open>Properties of BoundsFitter\<close>

definition in_world :: "latlng \<Rightarrow> bool" where
  "in_world p = (-90 \<le> lat p \<and> lat p \<le> 90 \<and> -180 \<le> lng p \<and> lng p \<le> 180)"

lemma contains_world_fold:
  "contains_corners worldLatLng
       (southWest (fold (\<lambda>q b. extend_corners b q q) ps b))
       (northEast (fold (\<lambda>q b. extend_corners b q q) ps b))
   \<longleftrightarrow> contains_corners worldLatLng (southWest b) (northEast b) \<and> (\<forall>q\<in>set ps. in_world q)"
proof (induction ps arbitrary: b)
  case Nil
  show ?case by simp
next
  case (Cons q qs)
  have step: "contains_corners worldLatLng (southWest (extend_corners b q q))
                (northEast (extend_corners b q q))
              \<longleftrightarrow> contains_corners worldLatLng (southWest b) (northEast b) \<and> in_world q"
    by (auto simp: contains_corners_def extend_corners_def southWest_def northEast_def
        worldLatLng_def in_world_def)
  show ?case
    using Cons.IH [of "extend_corners b q q"] step by auto
qed

lemma contains_world_points:
  "contains worldLatLng (GBounds (bounds_of_points p ps)) \<longleftrightarrow> (\<forall>q\<in>set (p # ps). in_world q)"
proof -
  have "contains_corners worldLatLng (southWest (p, p)) (northEast (p, p)) \<longleftrightarrow> in_world p"
    by (auto simp: contains_corners_def southWest_def northEast_def worldLatLng_def in_world_def)
  then show ?thesis
    using contains_world_fold [of ps "(p, p)"] by (simp add: bounds_of_points_def)
qed

lemma contains_world_rings:
  "contains worldLatLng (GBounds (bounds_of_rings r rs))
   \<longleftrightarrow> (\<forall>q\<in>set (concat (map ring_points (r # rs))). in_world q)"
  unfolding bounds_of_rings_def contains_world_points
  by (simp add: ring_points_def)

definition mask_outer :: ring where
  "mask_outer = ((3600, -180), [(3600, 180), (-3600, 180), (-3600, -180)])"

definition mask_hole :: ring where
  "mask_hole = ((48, 2), [(49, 2), (49, 3), (48, 3)])"

text \<open>
  C3. A polygon whose own bounding box is not within the world envelope and that has a
  second ring is treated as a mask: the bounds are recomputed from all rings but the first,
  and the layer is accepted, with these bounds, exactly when they are within the envelope.
  In particular, when the outer ring leaves the envelope and the only other ring is inside
  it, \<open>validateBounds\<close> and \<open>getValidBounds\<close> return the bounds of that ring alone.
\<close>

theorem validateBounds_mask:
  "(\<not> contains worldLatLng (GBounds (bounds_of_rings outer (r # rs))) \<longrightarrow>
      validateBounds (Polygon outer (r # rs)) =
        (if contains worldLatLng (GBounds (bounds_of_rings r rs))
         then GBounds (bounds_of_rings r rs) else GFalse) \<and>
      (validateBounds (Polygon outer (r # rs)) \<noteq> GFalse \<longleftrightarrow>
        contains worldLatLng (GBounds (bounds_of_rings r rs)))) \<and>
   ((\<exists>q\<in>set (ring_points outer). \<not> in_world q) \<and> (\<forall>q\<in>set (ring_points r). in_world q) \<longrightarrow>
      validateBounds (Polygon outer [r]) = GBounds (bounds_of_points (fst r) (snd r)) \<and>
      getValidBounds (Shape (Polygon outer [r])) = Some (bounds_of_points (fst r) (snd r)))"
proof (intro conjI impI)
  assume fails: "\<not> contains worldLatLng (GBounds (bounds_of_rings outer (r # rs)))"
  then show eq: "validateBounds (Polygon outer (r # rs)) =
        (if contains worldLatLng (GBounds (bounds_of_rings r rs))
         then GBounds (bounds_of_rings r rs) else GFalse)"
    by (simp add: validateBounds_def)
  show "validateBounds (Polygon outer (r # rs)) \<noteq> GFalse \<longleftrightarrow>
        contains worldLatLng (GBounds (bounds_of_rings r rs))"
    by (simp add: eq)
next
  assume h: "(\<exists>q\<in>set (ring_points outer). \<not> in_world q) \<and> (\<forall>q\<in>set (ring_points r). in_world q)"
  have fails: "\<not> contains worldLatLng (GBounds (bounds_of_rings outer [r]))"
    using h unfolding contains_world_rings by auto
  have inside: "contains worldLatLng (GBounds (bounds_of_rings r []))"
    using h unfolding contains_world_rings by auto
  have sub: "bounds_of_rings r [] = bounds_of_points (fst r) (snd r)"
    by (simp add: bounds_of_rings_def)
  show v: "validateBounds (Polygon outer [r]) = GBounds (bounds_of_points (fst r) (snd r))"
    using fails inside by (simp add: validateBounds_def sub)
  show "getValidBounds (Shape (Polygon outer [r])) = Some (bounds_of_points (fst r) (snd r))"
    by (simp add: v southWest_def northEast_def)
qed

theorem validateBounds_mask_witness:
  "\<not> contains worldLatLng (GBounds (bounds_of_rings mask_outer [mask_hole])) \<and>
   \<not> in_world (3600, -180) \<and>
   validateBounds (Polygon mask_outer [mask_hole]) = GBounds ((48, 2), (49, 3)) \<and>
   getValidBounds (Shape (Polygon mask_outer [mask_hole])) = Some ((48, 2), (49, 3))"
proof -
  have out: "\<exists>q\<in>set (ring_points mask_outer). \<not> in_world q"
    by (simp add: mask_outer_def ring_points_def in_world_def)
  have ins: "\<forall>q\<in>set (ring_points mask_hole). in_world q"
    by (simp add: mask_hole_def ring_points_def in_world_def)
  have b: "bounds_of_points (fst mask_hole) (snd mask_hole) = ((48, 2), (49, 3))"
    by (simp add: mask_hole_def bounds_of_points_def extend_corners_def southWest_def
        northEast_def)
  have fails: "\<not> contains worldLatLng (GBounds (bounds_of_rings mask_outer [mask_hole]))"
    using out unfolding contains_world_rings by auto
  from validateBounds_mask [of mask_outer mask_hole "[]"] out ins
  have "validateBounds (Polygon mask_outer [mask_hole]) =
          GBounds (bounds_of_points (fst mask_hole) (snd mask_hole)) \<and>
        getValidBounds (Shape (Polygon mask_outer [mask_hole])) =
          Some (bounds_of_points (fst mask_hole) (snd mask_hole))"
    by blast
  with fails b show ?thesis
    by (simp add: in_world_def southWest_def northEast_def)
qed

section \<open>Properties of the view controller\<close>

text \<open>
  The hash as the specification words it: the zoom's number of decimal places from the
  table, a position rounded at its zoom, and the comparison of the initial position with
  the current one after that rounding. A position without a center or without a numeric
  zoom equals no current position.
\<close>

definition decimal_places :: "int \<Rightarrow> nat" where
  "decimal_places z = (case precisionPerZoom_at (Num z) of Some d \<Rightarrow> d | None \<Rightarrow> 0)"

definition rounded_position :: "latlng \<Rightarrow> int \<Rightarrow> int \<times> string \<times> string" where
  "rounded_position c z =
     (z, toFixed (lat c) (decimal_places z), toFixed (lng c) (decimal_places z))"

definition same_after_rounding :: "position \<Rightarrow> view \<Rightarrow> bool" where
  "same_after_rounding initial current =
     (case (p_center initial, p_zoom initial) of
        (Some c, Num z) \<Rightarrow> rounded_position c z = rounded_position (fst current) (snd current)
      | _ \<Rightarrow> False)"

definition suffix_of :: "view \<Rightarrow> string" where
  "suffix_of current =
     ''/'' @ int_toString (snd current) @
     ''/'' @ toFixed (lat (fst current)) (decimal_places (snd current)) @
     ''/'' @ toFixed (lng (fst current)) (decimal_places (snd current))"

lemma toFixed_js_at: "toFixed_js x (precisionPerZoom_at (Num z)) = toFixed x (decimal_places z)"
  by (simp add: toFixed_js_def decimal_places_def)

lemma newHash_of_eq:
  "newHash_of m current =
     int_toString (snd current) @ CHR ''/'' #
     toFixed (lat (fst current)) (decimal_places (snd current)) @ CHR ''/'' #
     toFixed (lng (fst current)) (decimal_places (snd current))"
  by (simp add: newHash_of_def getScaleLatLng_def toFixed_js_at del: precisionPerZoom_at.simps)

lemma initialHash_of_eq:
  "initialHash_of m initial =
     (case p_center initial of
        None \<Rightarrow> None
      | Some c \<Rightarrow>
          Some (to_string (p_zoom initial) @ CHR ''/'' #
                toFixed_js (lat c) (precisionPerZoom_at
                  (if p_zoom initial = Undefined then getZoom m else p_zoom initial)) @ CHR ''/'' #
                toFixed_js (lng c) (precisionPerZoom_at
                  (if p_zoom initial = Undefined then getZoom m else p_zoom initial))))"
  by (simp add: initialHash_of_def getScaleLatLng_def Let_def del: precisionPerZoom_at.simps split: option.splits)

lemma hash_eq_iff:
  "Some (newHash_of m current) = initialHash_of m initial \<longleftrightarrow> same_after_rounding initial current"
proof (cases "p_center initial")
  case None
  then show ?thesis
    by (simp add: initialHash_of_eq same_after_rounding_def)
next
  case (Some c)
  let ?z = "snd current"
  let ?zi = "if p_zoom initial = Undefined then getZoom m else p_zoom initial"
  have "Some (newHash_of m current) = initialHash_of m initial \<longleftrightarrow>
        to_string (Num ?z) @ CHR ''/'' #
          (toFixed (lat (fst current)) (decimal_places ?z) @ CHR ''/'' #
           toFixed (lng (fst current)) (decimal_places ?z)) =
        to_string (p_zoom initial) @ CHR ''/'' #
          (toFixed_js (lat c) (precisionPerZoom_at ?zi) @ CHR ''/'' #
           toFixed_js (lng c) (precisionPerZoom_at ?zi))"
    using Some by (simp add: newHash_of_eq initialHash_of_eq del: precisionPerZoom_at.simps)
  also have "\<dots> \<longleftrightarrow>
        to_string (Num ?z) = to_string (p_zoom initial) \<and>
        toFixed (lat (fst current)) (decimal_places ?z) @ CHR ''/'' #
           toFixed (lng (fst current)) (decimal_places ?z) =
        toFixed_js (lat c) (precisionPerZoom_at ?zi) @ CHR ''/'' #
           toFixed_js (lng c) (precisionPerZoom_at ?zi)"
    by (rule split_at_slash) (rule to_string_no_slash)+
  also have "\<dots> \<longleftrightarrow>
        to_string (Num ?z) = to_string (p_zoom initial) \<and>
        toFixed (lat (fst current)) (decimal_places ?z) = toFixed_js (lat c) (precisionPerZoom_at ?zi) \<and>
        toFixed (lng (fst current)) (decimal_places ?z) = toFixed_js (lng c) (precisionPerZoom_at ?zi)"
    using split_at_slash [OF toFixed_no_slash toFixed_js_no_slash] by simp
  also have "\<dots> \<longleftrightarrow> same_after_rounding initial current"
  proof (cases "p_zoom initial = Num ?z")
    case True
    then show ?thesis
      using Some by (auto simp: same_after_rounding_def rounded_position_def toFixed_js_at simp del: precisionPerZoom_at.simps)
  next
    case False
    then have "to_string (Num ?z) \<noteq> to_string (p_zoom initial)"
      using to_string_inj [of "Num ?z" "p_zoom initial"] by auto
    moreover have "\<not> same_after_rounding initial current"
      using False Some
      by (auto simp: same_after_rounding_def rounded_position_def split: jsval.splits)
    ultimately show ?thesis by simp
  qed
  finally show ?thesis .
qed

lemma getHash_eq:
  "(initialPosition m = None \<longrightarrow> getHash m = Inr (fullScreenRoute m)) \<and>
   (initialPosition m = Some initial \<and> getMapPosition m = Some current \<longrightarrow>
      getHash m =
        (if same_after_rounding initial current then Inr (fullScreenRoute m)
         else Inr (Some (route_string (fullScreenRoute m) @ suffix_of current))))"
proof (intro conjI impI)
  assume "initialPosition m = None"
  then show "getHash m = Inr (fullScreenRoute m)"
    by (simp add: getHash_def)
next
  assume h: "initialPosition m = Some initial \<and> getMapPosition m = Some current"
  have "getHash m =
          (if Some (newHash_of m current) \<noteq> initialHash_of m initial
           then Inr (Some (route_string (fullScreenRoute m) @ ''/'' @ newHash_of m current))
           else Inr (fullScreenRoute m))"
    using h by (simp add: getHash_def Let_def)
  also have "''/'' @ newHash_of m current = suffix_of current"
    by (simp add: newHash_of_eq suffix_of_def)
  finally show "getHash m =
        (if same_after_rounding initial current then Inr (fullScreenRoute m)
         else Inr (Some (route_string (fullScreenRoute m) @ suffix_of current)))"
    by (simp add: hash_eq_iff)
qed


text \<open>
  Sample maps: a visible frame whose Leaflet fits the world at zoom 0 around (0, 0), a map
  just constructed, and the map after \<open>initView\<close> with a center and zoom 12.
\<close>

definition frame :: container where
  "frame = \<lparr>c_visible = True,
            c_size_x = 300,
            c_setView = (\<lambda>c z. (c, z)),
            c_fitBounds = (\<lambda>b. (((lat (southWest b) + lat (northEast b)) / 2,
                                   (lng (southWest b) + lng (northEast b)) / 2), 10)),
            c_fitWorld = ((0, 0), 0),
            c_setZoom = (\<lambda>z v. (fst v, z))\<rparr>"

definition new_map :: kmap where
  "new_map = \<lparr>container = frame, view = None, initialPosition = None,
      layers = [Shape TileLayer], dataLayers = [],
      opt_fullscreen = False, opt_link = False, opt_fallbackZoom = 13, fullscreen = False,
      fullScreenRoute = Some ''/map/0'', lang = ''en'', featureType = ''mapframe'',
      captionText = [], container_data = None, kartographer_ready = False,
      updatingHash = False, static = None, static_class = False,
      invalidateSize_overridden = False, staticTimer = False\<rparr>"

definition paris_map :: kmap where
  "paris_map = fst (initView new_map (CArray (Num (4885837 / 100000)) (Num (229449 / 100000))) (Num 12) True)"

lemma paris_initial:
  "initialPosition paris_map = Some \<lparr>p_center = Some (4885837 / 100000, 229449 / 100000), p_zoom = Num 12\<rparr>"
  by (simp add: paris_map_def initView_def initView_false_def setView_def new_map_def Let_def
      getInitialMapPosition_def)




lemma evals:
  "toFixed (4885837 / 100000) 4 = ''48.8584''"
  "toFixed (229449 / 100000) 4 = ''2.2945''"
  "toFixed (4885841 / 100000) 4 = ''48.8584''"
  "toFixed (49) 4 = ''49.0000''"
  "int_toString 12 = ''12''"
  by (simp_all add: toFixed_def int_toString_def nat_toString_small nat_toString_big digit_char_def floor_rat_numeral)


lemmas eval_simps = toFixed_def int_toString_def nat_toString_small nat_toString_big
  digit_char_def floor_rat_numeral floor_rat_one_numeral replicate_numeral precisionPerZoom_def





text \<open>
  C9. The precision table has entries for the zoom levels 0 to 18 only, while the tile
  layer allows zoom 19. At every zoom of 19 or more the lookup is out of range, and
  \<open>getScaleLatLng\<close>, and with it the hash, rounds the coordinates to 0 decimal places.
\<close>

theorem precision_out_of_range:
  "length precisionPerZoom = 19 \<and> wikimediaLayer_maxZoom = 19 \<and>
   (0 \<le> z \<and> z \<le> 18 \<longrightarrow> precisionPerZoom_at (Num z) = Some (precisionPerZoom ! nat z)) \<and>
   (19 \<le> z \<longrightarrow>
      precisionPerZoom_at (Num z) = None \<and>
      getScaleLatLng m la lo (Num z) = [toFixed la 0, toFixed lo 0] \<and>
      newHash_of m (c, z) = int_toString z @ ''/'' @ toFixed (lat c) 0 @ ''/'' @ toFixed (lng c) 0)"
proof (intro conjI impI)
  show "length precisionPerZoom = 19"
    by (simp add: precisionPerZoom_def)
  show "wikimediaLayer_maxZoom = 19"
    by (simp add: wikimediaLayer_maxZoom_def)
next
  assume "0 \<le> z \<and> z \<le> 18"
  then have "nat z < 19" by arith
  then have "nat z < length precisionPerZoom"
    by (simp add: precisionPerZoom_def)
  with \<open>0 \<le> z \<and> z \<le> 18\<close> show "precisionPerZoom_at (Num z) = Some (precisionPerZoom ! nat z)"
    by simp
next
  assume z: "19 \<le> z"
  then have "\<not> nat z < length precisionPerZoom"
    by (simp add: precisionPerZoom_def)
  then show none: "precisionPerZoom_at (Num z) = None"
    by simp
  show "getScaleLatLng m la lo (Num z) = [toFixed la 0, toFixed lo 0]"
    using none by (simp add: getScaleLatLng_def toFixed_js_def)
  have "decimal_places z = 0"
    using none by (simp add: decimal_places_def)
  then show "newHash_of m (c, z) =
      int_toString z @ ''/'' @ toFixed (lat c) 0 @ ''/'' @ toFixed (lng c) 0"
    by (simp add: newHash_of_eq)
qed

theorem precision_out_of_range_witness:
  "getScaleLatLng paris_map (4885837 / 100000) (229449 / 100000) (Num 18) = [''48.85837'', ''2.29449''] \<and>
   getScaleLatLng paris_map (4885837 / 100000) (229449 / 100000) (Num 19) = [''49'', ''2''] \<and>
   newHash_of paris_map ((4885837 / 100000, 229449 / 100000), 19) = ''19/49/2''"
proof -
  have a: "getScaleLatLng paris_map (4885837 / 100000) (229449 / 100000) (Num 18)
           = [''48.85837'', ''2.29449'']"
    using precision_out_of_range [of 18]
    by (simp add: getScaleLatLng_def toFixed_js_def eval_simps)
  have e: "toFixed (4885837 / 100000) 0 = ''49''" "toFixed (229449 / 100000) 0 = ''2''"
    "int_toString 19 = ''19''"
    by (simp_all add: eval_simps)
  show ?thesis
    using precision_out_of_range [of 19 paris_map "4885837 / 100000" "229449 / 100000"
        "(4885837 / 100000, 229449 / 100000)"] a e
    by (simp add: wikimediaLayer_maxZoom_def precisionPerZoom_def)
qed

text \<open>
  The two branches of \<open>setView\<close>. \<open>autofit_calls\<close> is the fit to the valid bounds of
  all layers, or to the world without them; \<open>placed_view\<close> is the view after the fit and
  the zoom that follows it.
\<close>

definition fit_view :: "kmap \<Rightarrow> view" where
  "fit_view m =
     (case getValidBounds (LayerGroup (layers m)) of
        Some b \<Rightarrow> c_fitBounds (container m) b
      | None \<Rightarrow> c_fitWorld (container m))"

definition autofit_calls :: "kmap \<Rightarrow> call list" where
  "autofit_calls m =
     (case getValidBounds (LayerGroup (layers m)) of
        Some b \<Rightarrow> [L_fitBounds b]
      | None \<Rightarrow> [L_fitWorld])"

definition initial_zoom :: "kmap \<Rightarrow> int jsval" where
  "initial_zoom m = (case initialPosition m of Some ip \<Rightarrow> p_zoom ip | None \<Rightarrow> Undefined)"

definition zoom_calls :: "int jsval \<Rightarrow> call list" where
  "zoom_calls zoom = (case zoom of Num z \<Rightarrow> [L_setZoom z] | _ \<Rightarrow> [])"

definition placed_view :: "kmap \<Rightarrow> view" where
  "placed_view m =
     (case initial_zoom m of
        Num z \<Rightarrow> c_setZoom (container m) z (fit_view m)
      | _ \<Rightarrow> fit_view m)"

definition saved :: "kmap \<Rightarrow> view \<Rightarrow> kmap" where
  "saved m v =
     (if fullscreen m
      then m\<lparr>view := Some v, initialPosition := Some \<lparr>p_center = Some (fst v), p_zoom = Num (snd v)\<rparr>\<rparr>
      else m\<lparr>view := Some v, initialPosition := Some \<lparr>p_center = Some (fst v), p_zoom = Num (snd v)\<rparr>,
             container_data := Some (snd v, lng (fst v), lat (fst v))\<rparr>)"

lemma setView_direct:
  "resolveCenter center = Some c \<Longrightarrow>
   setView m center zoom save =
     (m\<lparr>view := Some (c_setView (container m) c (case zoom of Num z \<Rightarrow> z | _ \<Rightarrow> opt_fallbackZoom m))\<rparr>,
      [L_setView c (case zoom of Num z \<Rightarrow> z | _ \<Rightarrow> opt_fallbackZoom m)])"
  by (simp add: setView_def Let_def)

lemma setView_autofit:
  assumes "resolveCenter center = None"
  shows "setView m center zoom save =
     (if c_visible (container m) \<and> save then saved m (placed_view m)
      else m\<lparr>view := Some (placed_view m)\<rparr>,
      autofit_calls m @ zoom_calls (initial_zoom m))"
proof (cases "getValidBounds (LayerGroup (layers m))")
  case None
  show ?thesis
  proof (cases "initialPosition m")
    case n: None
    show ?thesis
      using assms None n
      by (simp add: setView_def Let_def getInitialMapPosition_def fit_view_def autofit_calls_def
          initial_zoom_def zoom_calls_def placed_view_def saved_def initView_false_def)
  next
    case (Some ip)
    show ?thesis
      using assms None Some
      by (cases "p_zoom ip")
        (simp_all add: setView_def Let_def getInitialMapPosition_def fit_view_def autofit_calls_def
          initial_zoom_def zoom_calls_def placed_view_def saved_def initView_false_def)
  qed
next
  case b: (Some b)
  show ?thesis
  proof (cases "initialPosition m")
    case None
    show ?thesis
      using assms None b
      by (simp add: setView_def Let_def getInitialMapPosition_def fit_view_def autofit_calls_def
          initial_zoom_def zoom_calls_def placed_view_def saved_def initView_false_def)
  next
    case (Some ip)
    show ?thesis
      using assms b Some
      by (cases "p_zoom ip")
        (simp_all add: setView_def Let_def getInitialMapPosition_def fit_view_def autofit_calls_def
          initial_zoom_def zoom_calls_def placed_view_def saved_def initView_false_def)
  qed
qed

lemma initView_unresolved:
  "resolveCenter center = None \<Longrightarrow>
   initView m center zoom True =
     setView (initView_false m center zoom) CUndefined (if isNaN zoom then Undefined else zoom) True"
  by (simp add: initView_def Let_def)

lemma initView_resolved:
  "resolveCenter center = Some c \<Longrightarrow>
   initView m center zoom True =
     setView (initView_false m center zoom) (CLatLng c) (if isNaN zoom then Undefined else zoom) True"
  by (simp add: initView_def Let_def)

lemma paris_map_eq:
  "paris_map = new_map\<lparr>
      initialPosition := Some \<lparr>p_center = Some (4885837 / 100000, 229449 / 100000), p_zoom = Num 12\<rparr>,
      view := Some ((4885837 / 100000, 229449 / 100000), 12)\<rparr>"
  by (simp add: paris_map_def initView_resolved setView_direct)
    (simp add: initView_false_def new_map_def frame_def)

text \<open>
  C10. When the stored initial position has no center, the initial hash cannot be
  computed and \<open>getHash\<close> appends the suffix of the current position whatever that
  position is. \<open>initView\<close> stores such a position when the center it receives is absent
  or has a \<open>NaN\<close> entry and the container is not visible; the hash of the map it leaves,
  which has not moved, carries the suffix.
\<close>

theorem getHash_without_initial_center:
  "(initialPosition m = Some initial \<and> p_center initial = None \<and>
    getMapPosition m = Some current \<longrightarrow>
      getHash m = Inr (Some (route_string (fullScreenRoute m) @ suffix_of current))) \<and>
   (resolveCenter center = None \<and> \<not> c_visible (container m) \<longrightarrow>
      (\<exists>z current.
         initialPosition (fst (initView m center zoom True)) = Some \<lparr>p_center = None, p_zoom = z\<rparr> \<and>
         getMapPosition (fst (initView m center zoom True)) = Some current \<and>
         getHash (fst (initView m center zoom True)) =
           Inr (Some (route_string (fullScreenRoute m) @ suffix_of current))))"
proof (intro conjI impI)
  assume h: "initialPosition m = Some initial \<and> p_center initial = None \<and>
    getMapPosition m = Some current"
  then have "\<not> same_after_rounding initial current"
    by (simp add: same_after_rounding_def)
  with h show "getHash m = Inr (Some (route_string (fullScreenRoute m) @ suffix_of current))"
    using getHash_eq [of m initial current] by simp
next
  assume h: "resolveCenter center = None \<and> \<not> c_visible (container m)"
  let ?m = "fst (initView m center zoom True)"
  let ?z = "if isNaN zoom then Undefined else zoom"
  let ?m1 = "initView_false m center zoom"
  have m: "?m = ?m1\<lparr>view := Some (placed_view ?m1)\<rparr>"
    using h by (simp add: initView_unresolved setView_autofit) (simp add: initView_false_def Let_def)
  obtain v where v: "view ?m = Some v"
    by (simp add: m)
  have i: "initialPosition ?m = Some \<lparr>p_center = None, p_zoom = ?z\<rparr>"
    using h by (simp add: m) (simp add: initView_false_def Let_def)
  have r: "fullScreenRoute ?m = fullScreenRoute m"
    by (simp add: m) (simp add: initView_false_def Let_def)
  have p: "getMapPosition ?m = Some (wrap (fst v), snd v)"
    using v by (simp add: getMapPosition_def split: prod.splits)
  have "\<not> same_after_rounding \<lparr>p_center = None, p_zoom = ?z\<rparr> (wrap (fst v), snd v)"
    by (simp add: same_after_rounding_def)
  then have "getHash ?m = Inr (Some (route_string (fullScreenRoute m) @ suffix_of (wrap (fst v), snd v)))"
    using getHash_eq [of ?m "\<lparr>p_center = None, p_zoom = ?z\<rparr>" "(wrap (fst v), snd v)"] i p r
    by simp
  with i p show "\<exists>z current.
         initialPosition ?m = Some \<lparr>p_center = None, p_zoom = z\<rparr> \<and>
         getMapPosition ?m = Some current \<and>
         getHash ?m = Inr (Some (route_string (fullScreenRoute m) @ suffix_of current))"
    by blast
qed


definition hidden_map :: kmap where
  "hidden_map = new_map\<lparr>container := frame\<lparr>c_visible := False\<rparr>\<rparr>"

definition unplaced_map :: kmap where
  "unplaced_map = fst (initView hidden_map (CArray NaN (Num 2)) (Num 12) True)"

lemma unplaced_eq:
  "unplaced_map = hidden_map\<lparr>initialPosition := Some \<lparr>p_center = None, p_zoom = Num 12\<rparr>,
                              view := Some ((0, 0), 12)\<rparr>"
  by (simp add: unplaced_map_def initView_unresolved setView_autofit)
    (simp add: initView_false_def hidden_map_def new_map_def frame_def placed_view_def
      initial_zoom_def fit_view_def validateBounds_def extend_bounds_def)

theorem getHash_without_initial_center_witness:
  "resolveCenter (CArray NaN (Num 2)) = None \<and>
   initialPosition unplaced_map = Some \<lparr>p_center = None, p_zoom = Num 12\<rparr> \<and>
   getMapPosition unplaced_map = Some ((0, 0), 12) \<and>
   getHash unplaced_map = Inr (Some ''/map/0/12/0.0000/0.0000'')"
proof -
  have i: "initialPosition unplaced_map = Some \<lparr>p_center = None, p_zoom = Num 12\<rparr>"
    by (simp add: unplaced_eq)
  have p: "getMapPosition unplaced_map = Some ((0, 0), 12)"
    by (simp add: unplaced_eq getMapPosition_def wrap_def wrapNum_def js_rem_def floor_rat_numeral floor_rat_one_numeral)
  have r: "fullScreenRoute unplaced_map = Some ''/map/0''"
    by (simp add: unplaced_eq hidden_map_def new_map_def)
  have s: "suffix_of ((0, 0), 12) = ''/12/0.0000/0.0000''"
    by (simp add: suffix_of_def decimal_places_def eval_simps)
  have "getHash unplaced_map = Inr (Some ''/map/0/12/0.0000/0.0000'')"
    using getHash_without_initial_center
      [of unplaced_map "\<lparr>p_center = None, p_zoom = Num 12\<rparr>" "((0, 0), 12)"] i p r s
    by (simp add: route_string_def)
  with i p show ?thesis by simp
qed

definition zoom3_map :: kmap where
  "zoom3_map = initView_false new_map CUndefined (Num 3)"

lemma new_map_bounds: "getValidBounds (LayerGroup (layers new_map)) = None"
  by (simp add: new_map_def validateBounds_def extend_bounds_def)

lemma zoom3_map_bounds: "getValidBounds (LayerGroup (layers zoom3_map)) = None"
  by (simp add: zoom3_map_def initView_false_def Let_def new_map_def validateBounds_def
      extend_bounds_def)

lemma zoom3_map_initial: "initialPosition zoom3_map = Some \<lparr>p_center = None, p_zoom = Num 3\<rparr>"
  by (simp add: zoom3_map_def initView_false_def)

text \<open>
  C1 as stated fails: the zoom that follows the fit is the one of the stored initial
  position, not the zoom argument of the call. With initial zoom 3, \<open>setView\<close> with
  no center and zoom 7 sets zoom 3; with no initial position it sets no zoom.
\<close>

theorem setView_requested_zoom_counterexample:
  "resolveCenter CUndefined = None \<and>
   snd (setView zoom3_map CUndefined (Num 7) False) = [L_fitWorld, L_setZoom 3] \<and>
   snd (setView zoom3_map CUndefined (Num 7) False) \<noteq> autofit_calls zoom3_map @ zoom_calls (Num 7) \<and>
   snd (setView new_map CUndefined (Num 7) False) = [L_fitWorld]"
  by (simp add: setView_autofit autofit_calls_def zoom_calls_def initial_zoom_def
      zoom3_map_bounds zoom3_map_initial new_map_bounds del: getValidBounds.simps)
    (simp add: new_map_def)

text \<open>
  C1, amended. When no center resolves (it is absent, or an array with an entry that is
  \<open>NaN\<close> or \<open>undefined\<close>), \<open>setView\<close> fits the view to the valid bounds of all
  layers, or to the world when there are none, and then sets the zoom of the stored
  initial position when that is a number. Reached through \<open>initView\<close>, which stores
  the requested zoom first, it sets the requested zoom.
\<close>

theorem setView_autofit_zoom:
  "(resolveCenter center = None \<longrightarrow>
      snd (setView m center zoom save) = autofit_calls m @ zoom_calls (initial_zoom m) \<and>
      view (fst (setView m center zoom save)) = Some (placed_view m)) \<and>
   (resolveCenter center = None \<longrightarrow>
      snd (initView m center zoom True) = autofit_calls m @ zoom_calls zoom)"
proof (intro conjI impI)
  assume h: "resolveCenter center = None"
  show "snd (setView m center zoom save) = autofit_calls m @ zoom_calls (initial_zoom m)"
    using h by (simp add: setView_autofit)
  show "view (fst (setView m center zoom save)) = Some (placed_view m)"
    using h by (simp add: setView_autofit saved_def)
next
  assume h: "resolveCenter center = None"
  let ?m1 = "initView_false m center zoom"
  have a: "autofit_calls ?m1 = autofit_calls m"
    by (simp add: autofit_calls_def initView_false_def Let_def)
  have z: "zoom_calls (initial_zoom ?m1) = zoom_calls zoom"
    by (cases zoom) (simp_all add: initial_zoom_def initView_false_def zoom_calls_def)
  show "snd (initView m center zoom True) = autofit_calls m @ zoom_calls zoom"
    using h by (simp add: initView_unresolved setView_autofit a z)
qed

theorem setView_autofit_zoom_witness:
  "resolveCenter CUndefined = None \<and>
   snd (setView zoom3_map CUndefined (Num 7) False) = [L_fitWorld, L_setZoom 3] \<and>
   view (fst (setView zoom3_map CUndefined (Num 7) False)) = Some ((0, 0), 3) \<and>
   snd (initView new_map CUndefined (Num 7) True) = [L_fitWorld, L_setZoom 7]"
proof -
  have p: "placed_view zoom3_map = ((0, 0), 3)"
    by (simp add: placed_view_def initial_zoom_def zoom3_map_initial fit_view_def zoom3_map_bounds
        del: getValidBounds.simps)
      (simp add: zoom3_map_def initView_false_def new_map_def frame_def)
  show ?thesis
    using setView_autofit_zoom [of CUndefined zoom3_map "Num 7" False]
      setView_autofit_zoom [of CUndefined new_map "Num 7" False] p
    by (simp add: autofit_calls_def zoom_calls_def initial_zoom_def zoom3_map_bounds
        zoom3_map_initial new_map_bounds del: getValidBounds.simps)
qed

text \<open>
  C7. With \<open>save\<close> requested, \<open>setView\<close> leaves the initial position and the
  container's data attributes as they are when the container is not visible. When it is
  visible and no center resolves, the view it placed is written to both. When a center
  resolves nothing is written.
\<close>

theorem setView_save:
  "(\<not> c_visible (container m) \<longrightarrow>
      initialPosition (fst (setView m center zoom True)) = initialPosition m \<and>
      container_data (fst (setView m center zoom True)) = container_data m) \<and>
   (c_visible (container m) \<and> resolveCenter center = None \<longrightarrow>
      view (fst (setView m center zoom True)) = Some (placed_view m) \<and>
      initialPosition (fst (setView m center zoom True)) =
        Some \<lparr>p_center = Some (fst (placed_view m)), p_zoom = Num (snd (placed_view m))\<rparr> \<and>
      (\<not> fullscreen m \<longrightarrow>
         container_data (fst (setView m center zoom True)) =
           Some (snd (placed_view m), lng (fst (placed_view m)), lat (fst (placed_view m))))) \<and>
   (resolveCenter center \<noteq> None \<longrightarrow>
      initialPosition (fst (setView m center zoom True)) = initialPosition m \<and>
      container_data (fst (setView m center zoom True)) = container_data m)"
proof (cases "resolveCenter center")
  case None
  then show ?thesis
    by (simp add: setView_autofit saved_def)
next
  case (Some c)
  then show ?thesis
    by (simp add: setView_direct)
qed

lemma new_map_placed: "placed_view new_map = ((0, 0), 0)"
  by (simp add: placed_view_def initial_zoom_def fit_view_def new_map_def
      frame_def validateBounds_def extend_bounds_def)

lemma hidden_map_placed: "placed_view hidden_map = ((0, 0), 0)"
  by (simp add: placed_view_def initial_zoom_def fit_view_def hidden_map_def new_map_def
      frame_def validateBounds_def extend_bounds_def)

theorem setView_save_witness:
  "\<not> c_visible (container hidden_map) \<and>
   initialPosition (fst (setView hidden_map CUndefined Undefined True)) = None \<and>
   container_data (fst (setView hidden_map CUndefined Undefined True)) = None \<and>
   c_visible (container new_map) \<and> resolveCenter CUndefined = None \<and>
   initialPosition (fst (setView new_map CUndefined Undefined True)) =
     Some \<lparr>p_center = Some (0, 0), p_zoom = Num 0\<rparr> \<and>
   container_data (fst (setView new_map CUndefined Undefined True)) = Some (0, 0, 0) \<and>
   initialPosition (fst (setView new_map (CArray (Num 48) (Num 2)) (Num 5) True)) = None"
proof -
  have h: "\<not> c_visible (container hidden_map)" "initialPosition hidden_map = None"
    "container_data hidden_map = None"
    by (simp_all add: hidden_map_def new_map_def frame_def)
  have n: "c_visible (container new_map)" "initialPosition new_map = None"
    "container_data new_map = None" "\<not> fullscreen new_map"
    by (simp_all add: new_map_def frame_def)
  show ?thesis
    using setView_save [of hidden_map CUndefined Undefined]
      setView_save [of new_map CUndefined Undefined]
      setView_save [of new_map "CArray (Num 48) (Num 2)" "Num 5"]
      h n new_map_placed
    by simp
qed

text \<open>
  C8 as stated fails: \<open>setView\<close> with \<open>save\<close>, on a visible container and without a
  center, stores the view it placed as the initial position, over the one stored before.
\<close>

theorem initialPosition_overwritten_counterexample:
  "initialPosition paris_map =
     Some \<lparr>p_center = Some (4885837 / 100000, 229449 / 100000), p_zoom = Num 12\<rparr> \<and>
   initialPosition (fst (setView paris_map CUndefined Undefined True)) =
     Some \<lparr>p_center = Some (0, 0), p_zoom = Num 12\<rparr>"
proof -
  have p: "placed_view paris_map = ((0, 0), 12)"
    unfolding paris_map_eq
    by (simp add: placed_view_def initial_zoom_def fit_view_def new_map_def frame_def
        validateBounds_def extend_bounds_def)
  have v: "c_visible (container paris_map)" "\<not> fullscreen paris_map"
    unfolding paris_map_eq by (simp_all add: new_map_def frame_def)
  show ?thesis
    using paris_initial v p by (simp add: setView_autofit saved_def)
qed

text \<open>
  C8, amended. \<open>setView\<close> leaves the initial position as it is whenever a center
  resolves, or \<open>save\<close> is not requested, or the container is not visible; and
  \<open>invalidateSizeAndSetInitialView\<close> leaves it as it is once it has a center.
\<close>

theorem initialPosition_kept:
  "(resolveCenter center \<noteq> None \<or> \<not> save \<or> \<not> c_visible (container m) \<longrightarrow>
      initialPosition (fst (setView m center zoom save)) = initialPosition m) \<and>
   (initialPosition m = Some initial \<and> p_center initial \<noteq> None \<and> p_zoom initial \<noteq> NaN \<longrightarrow>
      initialPosition (fst (invalidateSizeAndSetInitialView m)) = initialPosition m)"
proof (intro conjI impI)
  assume h: "resolveCenter center \<noteq> None \<or> \<not> save \<or> \<not> c_visible (container m)"
  show "initialPosition (fst (setView m center zoom save)) = initialPosition m"
  proof (cases "resolveCenter center")
    case None
    with h show ?thesis
      by (auto simp: setView_autofit)
  next
    case (Some c)
    then show ?thesis
      by (simp add: setView_direct)
  qed
next
  assume h: "initialPosition m = Some initial \<and> p_center initial \<noteq> None \<and> p_zoom initial \<noteq> NaN"
  then obtain c where c: "p_center initial = Some c"
    by auto
  have i: "initialPosition (invalidateSize m) = Some initial"
    using h by (simp add: invalidateSize_def)
  have z: "(if isNaN (p_zoom initial) then Undefined else p_zoom initial) = p_zoom initial"
    using h by (cases "p_zoom initial") simp_all
  have "initialPosition (fst (initView (invalidateSize m) (CLatLng c) (p_zoom initial) True))
        = Some initial"
    using c by (simp add: initView_resolved setView_direct) (simp add: initView_false_def z)
  with h c show "initialPosition (fst (invalidateSizeAndSetInitialView m)) = initialPosition m"
    by (simp add: invalidateSizeAndSetInitialView_def getInitialMapPosition_def Let_def)
qed

theorem initialPosition_kept_witness:
  "initialPosition (fst (setView paris_map CUndefined Undefined False)) = initialPosition paris_map \<and>
   initialPosition (fst (setView paris_map (CArray (Num 1) (Num 2)) Undefined True))
     = initialPosition paris_map \<and>
   initialPosition (fst (invalidateSizeAndSetInitialView paris_map)) = initialPosition paris_map"
  using initialPosition_kept [of CUndefined False paris_map Undefined]
    initialPosition_kept [of "CArray (Num 1) (Num 2)" True paris_map Undefined]
    initialPosition_kept [of CUndefined False paris_map Undefined
      "\<lparr>p_center = Some (4885837 / 100000, 229449 / 100000), p_zoom = Num 12\<rparr>"]
    paris_initial
  by simp

section \<open>Properties of the responsive mode\<close>

text \<open>The mode as the specification words it, from the two widths.\<close>

definition static_mode :: "int \<Rightarrow> int \<Rightarrow> bool" where
  "static_mode viewport_width surface_width =
     (viewport_width \<le> 480 \<or> surface_width + 200 > viewport_width)"

text \<open>
  Adding layers changes the fields \<open>layers\<close> and \<open>dataLayers\<close> of a map and no
  other; placing the view leaves the static state as it is.
\<close>

definition without_layers :: "kmap \<Rightarrow> kmap" where
  "without_layers m = m\<lparr>layers := [], dataLayers := []\<rparr>"

lemma addGeoJSONLayer_rest:
  "without_layers (fst (addGeoJSONLayer m k j opt)) = without_layers m"
  by (simp add: addGeoJSONLayer_def without_layers_def split: option.splits)

lemma addGroup_rest: "without_layers (fst (addGroup m k a g)) = without_layers m"
  by (simp add: addGroup_def Let_def addGeoJSONLayer_rest split: option.splits)

lemma eachGroup_rest: "without_layers (fst (eachGroup m gs)) = without_layers m"
  by (induction gs arbitrary: m) (simp_all add: addGroup_rest split: prod.splits, metis addGroup_rest fst_conv)


lemma eachInlineGroup_rest:
  "without_layers (fst (eachInlineGroup m n a gs)) = without_layers m"
proof (induction gs arbitrary: m n)
  case Nil
  show ?case by simp
next
  case (Cons g gs)
  obtain m1 c1 where a: "addGroup m (inlineDataLayerKey @ nat_toString n)
      (if g_attribution g \<noteq> [] then g_attribution g else a) g = (m1, c1)"
    by (cases "addGroup m (inlineDataLayerKey @ nat_toString n)
      (if g_attribution g \<noteq> [] then g_attribution g else a) g")
  have "without_layers m1 = without_layers m"
    using addGroup_rest [of m _ _ g] a by (metis fst_conv)
  then show ?case
    using Cons [of m1 "n + 1"] a by (auto simp: Let_def split: prod.splits)
qed

lemma copyDataLayers_rest: "without_layers (fst (copyDataLayers m ls)) = without_layers m"
proof (induction ls arbitrary: m)
  case Nil
  show ?case by simp
next
  case (Cons kl ls)
  obtain k l where kl: "kl = (k, l)" by (cases kl)
  obtain m1 c1 where a: "addGeoJSONLayer m k (dl_geoJSON l) (dl_options l) = (m1, c1)"
    by (cases "addGeoJSONLayer m k (dl_geoJSON l) (dl_options l)")
  have "without_layers m1 = without_layers m"
    using addGeoJSONLayer_rest [of m k "dl_geoJSON l" "dl_options l"] a by simp
  then show ?case
    using Cons [of m1] a kl by (auto simp: Let_def split: prod.splits)
qed

lemma addDataGroups_rest: "without_layers (fst (addDataGroups ld m ids)) = without_layers m"
  by (simp add: addDataGroups_def Let_def eachGroup_rest split: promise.splits prod.splits)
    (metis eachGroup_rest fst_conv)

lemma addDataLayer_rest: "without_layers (fst (addDataLayer ld m n d a)) = without_layers m"
  by (simp add: addDataLayer_def Let_def split: promise.splits prod.splits)
    (metis eachInlineGroup_rest fst_conv)

lemma static_without_layers: "static (without_layers m) = static m"
  by (simp add: without_layers_def)

lemma static_of_rest: "without_layers m' = without_layers m \<Longrightarrow> static m' = static m"
  by (metis static_without_layers)

lemma static_setView: "static (fst (setView m c z s)) = static m"
  by (cases "resolveCenter c") (simp_all add: setView_autofit setView_direct saved_def)

lemma static_initView: "static (fst (initView m c z s)) = static m"
  by (simp add: initView_def Let_def static_setView) (simp add: initView_false_def Let_def)

lemma ready_eq:
  "ready m c z =
     ((fst (initView m c z True))\<lparr>kartographer_ready := True\<rparr>,
      snd (initView m c z True) @ [Dragging_enable, TouchZoom_enable, Fire_kartographerisready])"
  by (simp add: ready_def split_beta)

lemma static_ready: "static (fst (ready m c z)) = static m"
  by (simp add: ready_eq static_initView)

lemma toggleStaticState_static:
  "static (fst (toggleStaticState m w x)) = Some (static_mode w x)"
  by (simp add: toggleStaticState_def static_mode_def Let_def)

lemma construct_static:
  "static (fst (construct_map e opts)) =
     (if \<not> o_fullscreen opts \<and> \<not> o_alwaysInteractive opts
      then Some (static_mode (innerWidth e) (c_size_x (o_container opts))) else None)"
  by (simp add: construct_map_def Let_def invalidateInteractive_def toggleStaticState_static
      split_beta)


lemma initialize_static:
  assumes "initialize e ld k opts = Inr (m', n, calls)"
  shows "static m' = static (fst (construct_map e opts))"
proof -
  let ?c = "case o_center opts of Auto \<Rightarrow> CUndefined | Given c \<Rightarrow> c"
  let ?z = "case o_zoom opts of Auto \<Rightarrow> Undefined | Given z \<Rightarrow> z"
  let ?m1 = "fst (construct_map e opts)"
  have srv: "mapServer e \<noteq> None"
    using assms by (cases "mapServer e") (simp_all add: initialize_def)
  show ?thesis
  proof (cases "o_parentMap opts")
    case (Some p)
    let ?m2 = "fst (copyDataLayers ?m1 (dataLayers p))"
    have "m' = fst (ready ?m2 ?c ?z)"
      using assms srv Some by (simp add: initialize_def split_beta Let_def)
    moreover have "static ?m2 = static ?m1"
      using copyDataLayers_rest by (rule static_of_rest)
    ultimately show ?thesis
      by (simp add: static_ready)
  next
    case None
    let ?m2 = "fst (addDataGroups ld ?m1 (o_dataGroups opts))"
    have s2: "static ?m2 = static ?m1"
      using addDataGroups_rest by (rule static_of_rest)
    show ?thesis
    proof (cases "snd (snd (addDataGroups ld ?m1 (o_dataGroups opts)))")
      case Rejected
      then have "m' = fst (ready ?m2 ?c ?z)"
        using assms srv None by (simp add: initialize_def split_beta Let_def)
      with s2 show ?thesis
        by (simp add: static_ready)
    next
      case (Resolved u)
      show ?thesis
      proof (cases "o_data opts")
        case n: None
        then have "m' = fst (ready ?m2 ?c ?z)"
          using assms srv None Resolved by (simp add: initialize_def split_beta Let_def)
        with s2 show ?thesis
          by (simp add: static_ready)
      next
        case (Some d)
        let ?m3 = "fst (addDataLayer ld ?m2 k d [])"
        have s3: "static ?m3 = static ?m2"
          using addDataLayer_rest by (rule static_of_rest)
        have "m' = fst (ready ?m3 ?c ?z) \<or> m' = ?m3"
          using assms srv None Resolved Some
          by (cases "snd (snd (snd (addDataLayer ld ?m2 k d [])))")
            (simp_all add: initialize_def split_beta Let_def)
        with s2 s3 show ?thesis
          by (auto simp: static_ready)
      qed
    qed
  qed
qed

definition static_map :: kmap where
  "static_map = fst (toggleStaticState new_map 400 300)"

text \<open>
  C6 as stated fails in its last part: entering the interactive state enables the sleep
  handler again and nothing else; wheel zoom, which entering the static state disabled,
  is not enabled by the transition.
\<close>

theorem toggleStaticState_wheel_counterexample:
  "static static_map = Some True \<and>
   static (fst (toggleStaticState static_map 1024 300)) = Some False \<and>
   snd (toggleStaticState static_map 1024 300) = [Sleep_enable, ToggleClass_static False] \<and>
   ScrollWheelZoom_enable \<notin> set (snd (toggleStaticState static_map 1024 300))"
  by (simp add: static_map_def toggleStaticState_def Let_def new_map_def)

text \<open>
  C6, amended. \<open>toggleStaticState\<close> computes the static mode exactly when the window is
  at most 480 px wide or the map's width plus 200 px exceeds the window's width. It does
  nothing when that is the current mode, so a second run with the same sizes does
  nothing. Entering the static mode puts the map to sleep, disables the sleep handler and
  disables wheel zoom; entering the interactive mode enables the sleep handler. The
  constructor sets the mode this way for a map that is neither full screen nor always
  interactive and leaves it unset for the others; so does the timer that
  \<open>invalidateSize\<close> starts, which on the other maps does not exist.
\<close>

theorem toggleStaticState_mode:
  "static (fst (toggleStaticState m w x)) = Some (static_mode w x) \<and>
   (static m = Some (static_mode w x) \<longrightarrow> toggleStaticState m w x = (m, [])) \<and>
   (static m \<noteq> Some (static_mode w x) \<longrightarrow>
      snd (toggleStaticState m w x) =
        (if static_mode w x
         then [Sleep_sleepMap, Sleep_disable, ScrollWheelZoom_disable, ToggleClass_static True]
         else [Sleep_enable, ToggleClass_static False])) \<and>
   toggleStaticState (fst (toggleStaticState m w x)) w x = (fst (toggleStaticState m w x), []) \<and>
   (initialize e ld k opts = Inr (m', n, calls) \<longrightarrow>
      static m' =
        (if \<not> o_fullscreen opts \<and> \<not> o_alwaysInteractive opts
         then Some (static_mode (innerWidth e) (c_size_x (o_container opts))) else None)) \<and>
   (invalidateSize_overridden m \<and> \<not> opt_fullscreen m \<longrightarrow>
      static (fst (staticTimer_fires (invalidateSize m) w x)) = Some (static_mode w x)) \<and>
   (\<not> invalidateSize_overridden m \<or> opt_fullscreen m \<longrightarrow> invalidateSize m = m)"
proof (intro conjI impI)
  show "static (fst (toggleStaticState m w x)) = Some (static_mode w x)"
    by (rule toggleStaticState_static)
  show "toggleStaticState (fst (toggleStaticState m w x)) w x = (fst (toggleStaticState m w x), [])"
    by (simp add: toggleStaticState_def Let_def)
next
  assume "static m = Some (static_mode w x)"
  then show "toggleStaticState m w x = (m, [])"
    by (simp add: toggleStaticState_def static_mode_def Let_def)
next
  assume "static m \<noteq> Some (static_mode w x)"
  then show "snd (toggleStaticState m w x) =
        (if static_mode w x
         then [Sleep_sleepMap, Sleep_disable, ScrollWheelZoom_disable, ToggleClass_static True]
         else [Sleep_enable, ToggleClass_static False])"
    by (simp add: toggleStaticState_def static_mode_def Let_def)
next
  assume "initialize e ld k opts = Inr (m', n, calls)"
  then show "static m' =
        (if \<not> o_fullscreen opts \<and> \<not> o_alwaysInteractive opts
         then Some (static_mode (innerWidth e) (c_size_x (o_container opts))) else None)"
    using initialize_static construct_static by simp
next
  assume "invalidateSize_overridden m \<and> \<not> opt_fullscreen m"
  then show "static (fst (staticTimer_fires (invalidateSize m) w x)) = Some (static_mode w x)"
    by (simp add: staticTimer_fires_def invalidateSize_def toggleStaticState_static)
next
  assume "\<not> invalidateSize_overridden m \<or> opt_fullscreen m"
  then show "invalidateSize m = m"
    by (auto simp: invalidateSize_def)
qed


section \<open>Properties of the data layers and of the construction\<close>

lemma update_fresh: "k \<notin> fst ` set al \<Longrightarrow> AList.update k v al = al @ [(k, v)]"
  by (induction al) auto





lemma setView_fields:
  "dataLayers (fst (setView m c z s)) = dataLayers m \<and>
   layers (fst (setView m c z s)) = layers m \<and>
   container (fst (setView m c z s)) = container m \<and>
   opt_fullscreen (fst (setView m c z s)) = opt_fullscreen m \<and>
   opt_link (fst (setView m c z s)) = opt_link m \<and>
   kartographer_ready (fst (setView m c z s)) = kartographer_ready m \<and>
   updatingHash (fst (setView m c z s)) = updatingHash m \<and>
   lang (fst (setView m c z s)) = lang m \<and>
   featureType (fst (setView m c z s)) = featureType m \<and>
   captionText (fst (setView m c z s)) = captionText m \<and>
   fullScreenRoute (fst (setView m c z s)) = fullScreenRoute m"
  by (cases "resolveCenter c") (simp_all add: setView_autofit setView_direct saved_def)

lemma initView_fields:
  "dataLayers (fst (initView m c z s)) = dataLayers m \<and>
   layers (fst (initView m c z s)) = layers m \<and>
   container (fst (initView m c z s)) = container m \<and>
   opt_fullscreen (fst (initView m c z s)) = opt_fullscreen m \<and>
   opt_link (fst (initView m c z s)) = opt_link m \<and>
   kartographer_ready (fst (initView m c z s)) = kartographer_ready m \<and>
   updatingHash (fst (initView m c z s)) = updatingHash m \<and>
   lang (fst (initView m c z s)) = lang m \<and>
   featureType (fst (initView m c z s)) = featureType m \<and>
   captionText (fst (initView m c z s)) = captionText m \<and>
   fullScreenRoute (fst (initView m c z s)) = fullScreenRoute m"
  by (simp add: initView_def Let_def setView_fields) (simp add: initView_false_def Let_def)

lemma ready_fields:
  "dataLayers (fst (ready m c z)) = dataLayers m \<and>
   layers (fst (ready m c z)) = layers m \<and>
   container (fst (ready m c z)) = container m \<and>
   opt_fullscreen (fst (ready m c z)) = opt_fullscreen m \<and>
   opt_link (fst (ready m c z)) = opt_link m \<and>
   kartographer_ready (fst (ready m c z)) \<and>
   updatingHash (fst (ready m c z)) = updatingHash m \<and>
   lang (fst (ready m c z)) = lang m \<and>
   featureType (fst (ready m c z)) = featureType m \<and>
   captionText (fst (ready m c z)) = captionText m \<and>
   fullScreenRoute (fst (ready m c z)) = fullScreenRoute m \<and>
   Fire_kartographerisready \<in> set (snd (ready m c z))"
  by (simp add: ready_eq initView_fields)



lemma initialize_ready:
  assumes srv: "mapServer e \<noteq> None"
    and inl: "\<forall>d. o_data opts = Some d \<longrightarrow> load ld d \<noteq> Rejected"
  shows "\<exists>m n calls. initialize e ld k opts = Inr (m, n, calls) \<and> kartographer_ready m \<and>
           Fire_kartographerisready \<in> set calls"
proof -
  let ?c = "case o_center opts of Auto \<Rightarrow> CUndefined | Given c \<Rightarrow> c"
  let ?z = "case o_zoom opts of Auto \<Rightarrow> Undefined | Given z \<Rightarrow> z"
  let ?m1 = "fst (construct_map e opts)"
  have goal: "\<exists>m n calls. initialize e ld k opts = Inr (m, n, calls) \<and> kartographer_ready m \<and>
           Fire_kartographerisready \<in> set calls"
    if "initialize e ld k opts = Inr (fst (ready M ?c ?z), N, C @ snd (ready M ?c ?z) @ D)"
    for M N C D
    using that ready_fields [of M ?c ?z] by simp
  show ?thesis
  proof (cases "o_parentMap opts")
    case (Some p)
    show ?thesis
      by (rule goal [of "fst (copyDataLayers ?m1 (dataLayers p))" k
            "snd (construct_map e opts) @ snd (copyDataLayers ?m1 (dataLayers p))" "[]"])
        (use srv Some in \<open>simp add: initialize_def split_beta Let_def\<close>)
  next
    case None
    let ?g = "addDataGroups ld ?m1 (o_dataGroups opts)"
    show ?thesis
    proof (cases "snd (snd ?g)")
      case Rejected
      show ?thesis
        by (rule goal [of "fst ?g" k "snd (construct_map e opts) @ fst (snd ?g)"
              "[Log_error ''Unable to add datalayers to map.'']"])
          (use srv None Rejected in \<open>simp add: initialize_def split_beta Let_def\<close>)
    next
      case (Resolved u)
      show ?thesis
      proof (cases "o_data opts")
        case n: None
        show ?thesis
          by (rule goal [of "fst ?g" k "snd (construct_map e opts) @ fst (snd ?g)" "[]"])
            (use srv None Resolved n in \<open>simp add: initialize_def split_beta Let_def\<close>)
      next
        case (Some d)
        let ?l = "addDataLayer ld (fst ?g) k d []"
        obtain gs where gs: "load ld d = Resolved gs"
          using inl Some by (cases "load ld d") auto
        have r: "snd (snd (snd ?l)) = Resolved ()"
          using gs by (simp add: addDataLayer_def split_beta Let_def)
        show ?thesis
          by (rule goal [of "fst ?l" "fst (snd ?l)"
                "snd (construct_map e opts) @ fst (snd ?g) @ fst (snd (snd ?l))" "[]"])
            (use srv None Resolved Some r in \<open>simp add: initialize_def split_beta Let_def\<close>)
      qed
    qed
  qed
qed




section \<open>Properties of the full-screen map\<close>

fun is_loader_call :: "call \<Rightarrow> bool" where
  "is_loader_call (Loader_loadGroups ids) = True"
| "is_loader_call Loader_load = True"
| "is_loader_call _ = False"

text \<open>
  The data layers of a map as \<open>addGeoJSONLayer\<close> leaves them: one entry for each group
  id, each holding the GeoJSON its layer was rendered from.
\<close>

definition wf_dataLayers :: "kmap \<Rightarrow> bool" where
  "wf_dataLayers m =
     (distinct (map fst (dataLayers m)) \<and>
      (\<forall>kl\<in>set (dataLayers m). featureLayer (dl_geoJSON (snd kl)) = Some (dl_layer (snd kl))))"

lemma setView_calls:
  "c \<in> set (snd (setView m ce z s)) \<Longrightarrow> \<not> is_loader_call c \<and> c \<noteq> New_KartographerMap"
  by (cases "resolveCenter ce")
    (auto simp: setView_autofit setView_direct autofit_calls_def zoom_calls_def
      split: option.splits jsval.splits)

lemma initView_calls:
  "c \<in> set (snd (initView m ce z s)) \<Longrightarrow> \<not> is_loader_call c \<and> c \<noteq> New_KartographerMap"
  using setView_calls by (auto simp: initView_def Let_def split: if_splits)

lemma ready_calls:
  "c \<in> set (snd (ready m ce z)) \<Longrightarrow> \<not> is_loader_call c \<and> c \<noteq> New_KartographerMap"
  using initView_calls [of c m ce z True] by (auto simp: ready_eq)

lemma addGeoJSONLayer_calls:
  "c \<in> set (snd (addGeoJSONLayer m k j opt)) \<Longrightarrow> \<not> is_loader_call c \<and> c \<noteq> New_KartographerMap"
  by (auto simp: addGeoJSONLayer_def split: option.splits)

lemma copyDataLayers_calls:
  "c \<in> set (snd (copyDataLayers m ls)) \<Longrightarrow> \<not> is_loader_call c \<and> c \<noteq> New_KartographerMap"
proof (induction ls arbitrary: m)
  case Nil
  then show ?case by simp
next
  case (Cons kl ls)
  obtain k l where kl: "kl = (k, l)" by (cases kl)
  from Cons.prems have "c \<in> set (snd (addGeoJSONLayer m k (dl_geoJSON l) (dl_options l))) \<or>
      c \<in> set (snd (copyDataLayers (fst (addGeoJSONLayer m k (dl_geoJSON l) (dl_options l))) ls))"
    by (simp add: kl split_beta Let_def)
  then show ?case
    using addGeoJSONLayer_calls Cons.IH by blast
qed

lemma copyDataLayers_wf:
  "distinct (map fst ls) \<Longrightarrow> fst ` set ls \<inter> fst ` set (dataLayers m) = {} \<Longrightarrow>
   \<forall>kl\<in>set ls. featureLayer (dl_geoJSON (snd kl)) = Some (dl_layer (snd kl)) \<Longrightarrow>
   dataLayers (fst (copyDataLayers m ls)) = dataLayers m @ ls"
proof (induction ls arbitrary: m)
  case Nil
  show ?case by simp
next
  case (Cons kl ls)
  obtain k l where kl: "kl = (k, l)" by (cases kl)
  let ?m1 = "fst (addGeoJSONLayer m k (dl_geoJSON l) (dl_options l))"
  have f: "featureLayer (dl_geoJSON l) = Some (dl_layer l)"
    using Cons.prems(3) kl by simp
  have fresh: "k \<notin> fst ` set (dataLayers m)"
    using Cons.prems(2) kl by auto
  have d1: "dataLayers ?m1 = dataLayers m @ [(k, l)]"
    using f fresh by (simp add: addGeoJSONLayer_def update_fresh)
  have "k \<notin> fst ` set ls"
    using Cons.prems(1) kl by auto
  moreover have "fst ` set ls \<inter> fst ` set (dataLayers m) = {}"
    using Cons.prems(2) by auto
  ultimately have "fst ` set ls \<inter> fst ` set (dataLayers ?m1) = {}"
    unfolding d1 by auto
  moreover have "distinct (map fst ls)"
    using Cons.prems(1) by simp
  moreover have "\<forall>kl\<in>set ls. featureLayer (dl_geoJSON (snd kl)) = Some (dl_layer (snd kl))"
    using Cons.prems(3) by simp
  ultimately have "dataLayers (fst (copyDataLayers ?m1 ls)) = dataLayers ?m1 @ ls"
    by (intro Cons.IH)
  then show ?case
    by (simp add: kl d1 split_beta Let_def)
qed

lemma construct_child:
  "o_fullscreen opts \<Longrightarrow>
   construct_map e opts =
     (\<lparr>container = o_container opts, view = None, initialPosition = None,
       layers = [Shape TileLayer], dataLayers = [],
       opt_fullscreen = True, opt_link = o_link opts,
       opt_fallbackZoom = fallbackZoom e, fullscreen = False,
       fullScreenRoute = o_fullScreenRoute opts, lang = o_lang opts,
       featureType = o_featureType opts, captionText = o_captionText opts,
       container_data = None, kartographer_ready = False, updatingHash = False,
       static = None, static_class = False, invalidateSize_overridden = False,
       staticTimer = False\<rparr>, [Dragging_disable, TouchZoom_disable])"
  by (simp add: construct_map_def Let_def)


lemma openFullScreen_creates:
  assumes "\<not> opt_link (w_map w)" "kartographer_ready (w_map w)" "fullScreenMap w = None"
    "mapServer e \<noteq> None" "initialPosition (w_map w) = Some initial"
  shows "openFullScreen e ld k w (Some position) =
     Inr (w\<lparr>fullScreenMap := Some
            (initView_false
               (fst (ready (fst (copyDataLayers (fst (construct_map e (child_options e (w_map w) position)))
                                   (dataLayers (w_map w))))
                      (fp_center position) (fp_zoom position)))
               (case p_center initial of Some c \<Rightarrow> CLatLng c | None \<Rightarrow> CUndefined)
               (p_zoom initial))\<rparr>,
          New_KartographerMap #
          (snd (construct_map e (child_options e (w_map w) position)) @
           snd (copyDataLayers (fst (construct_map e (child_options e (w_map w) position)))
                  (dataLayers (w_map w))) @
           snd (ready (fst (copyDataLayers (fst (construct_map e (child_options e (w_map w) position)))
                              (dataLayers (w_map w))))
                  (fp_center position) (fp_zoom position))) @
          [Dialog_render])"
proof -
  let ?o = "child_options e (w_map w) position"
  have o: "o_parentMap ?o = Some (w_map w)" "o_center ?o = Given (fp_center position)"
    "o_zoom ?o = Given (fp_zoom position)"
    by (simp_all add: child_options_def)
  have "initialize e ld k ?o =
     Inr (fst (ready (fst (copyDataLayers (fst (construct_map e ?o)) (dataLayers (w_map w))))
                 (fp_center position) (fp_zoom position)),
          k,
          snd (construct_map e ?o) @
          snd (copyDataLayers (fst (construct_map e ?o)) (dataLayers (w_map w))) @
          snd (ready (fst (copyDataLayers (fst (construct_map e ?o)) (dataLayers (w_map w))))
                 (fp_center position) (fp_zoom position)))"
    using assms(4) o by (simp add: initialize_def split_beta Let_def)
  then show ?thesis
    using assms by (simp add: openFullScreen_def openFullScreen_ready_def Let_def)
qed

lemma openFullScreen_reuses:
  assumes "\<not> opt_link (w_map w)" "kartographer_ready (w_map w)" "fullScreenMap w = Some child"
    "\<not> updatingHash child"
  shows "openFullScreen e ld k w (Some position) =
     Inr (w\<lparr>fullScreenMap := Some (fst (setView child (fp_center position) (fp_zoom position) False))\<rparr>,
          snd (setView child (fp_center position) (fp_zoom position) False) @ [Dialog_render])"
  using assms
  by (simp add: openFullScreen_def openFullScreen_ready_def store_target_def Let_def split_beta)

lemma openFullScreen_aborts:
  assumes "\<not> opt_link (w_map w)" "kartographer_ready (w_map w)" "fullScreenMap w = Some child"
    "updatingHash child"
  shows "openFullScreen e ld k w (Some position) =
     Inr (w\<lparr>fullScreenMap := Some (child\<lparr>updatingHash := False\<rparr>)\<rparr>, [])"
  using assms
  by (simp add: openFullScreen_def openFullScreen_ready_def store_target_def Let_def split_beta)

lemma openFullScreen_default_position:
  assumes "kartographer_ready (w_map w)" "getMapPosition (w_map w) = Some (c, z)"
  shows "openFullScreen e ld k w None =
         openFullScreen e ld k w (Some \<lparr>fp_center = CLatLng c, fp_zoom = Num z\<rparr>)"
  using assms by (simp add: openFullScreen_def openFullScreen_ready_def Let_def)


lemma rest_fields:
  assumes "without_layers m' = without_layers m"
  shows "opt_fullscreen m' = opt_fullscreen m \<and> updatingHash m' = updatingHash m \<and>
         kartographer_ready m' = kartographer_ready m"
proof -
  have "opt_fullscreen (without_layers m') = opt_fullscreen (without_layers m)"
    "updatingHash (without_layers m') = updatingHash (without_layers m)"
    "kartographer_ready (without_layers m') = kartographer_ready (without_layers m)"
    using assms by simp_all
  then show ?thesis
    by (simp add: without_layers_def)
qed

text \<open>
  C4. A map that is not a link has no full-screen map when it is constructed. The first
  \<open>openFullScreen\<close> of the ready map constructs one, with the data layers of the parent
  and without any call of the loader. A further \<open>openFullScreen\<close> constructs nothing: the
  full-screen map is the one there was, after \<open>setView\<close> to the position asked for. When
  the full-screen map carries the mark of a hash update under way, the call removes the
  mark and does nothing else.
\<close>

theorem openFullScreen_child:
  "fullScreenMap (new_world m) = None \<and>
   (\<not> opt_link (w_map w) \<and> kartographer_ready (w_map w) \<and> fullScreenMap w = None \<and>
    mapServer e \<noteq> None \<and> initialPosition (w_map w) = Some initial \<and> wf_dataLayers (w_map w) \<longrightarrow>
      (\<exists>child calls.
         openFullScreen e ld k w (Some position) = Inr (w\<lparr>fullScreenMap := Some child\<rparr>, calls) \<and>
         dataLayers child = dataLayers (w_map w) \<and>
         (\<forall>c\<in>set calls. \<not> is_loader_call c) \<and>
         count_list calls New_KartographerMap = 1 \<and>
         opt_fullscreen child \<and> kartographer_ready child \<and> \<not> updatingHash child \<and>
         openFullScreen e ld k (w\<lparr>fullScreenMap := Some child\<rparr>) (Some position') =
           Inr (w\<lparr>fullScreenMap :=
                    Some (fst (setView child (fp_center position') (fp_zoom position') False))\<rparr>,
                snd (setView child (fp_center position') (fp_zoom position') False) @
                [Dialog_render]))) \<and>
   (\<not> opt_link (w_map w) \<and> kartographer_ready (w_map w) \<and> fullScreenMap w = Some child \<and>
    \<not> updatingHash child \<longrightarrow>
      openFullScreen e ld k w (Some position) =
        Inr (w\<lparr>fullScreenMap :=
                 Some (fst (setView child (fp_center position) (fp_zoom position) False))\<rparr>,
             snd (setView child (fp_center position) (fp_zoom position) False) @ [Dialog_render]) \<and>
      New_KartographerMap \<notin>
        set (snd (setView child (fp_center position) (fp_zoom position) False) @ [Dialog_render])) \<and>
   (\<not> opt_link (w_map w) \<and> kartographer_ready (w_map w) \<and> fullScreenMap w = Some child \<and>
    updatingHash child \<longrightarrow>
      openFullScreen e ld k w (Some position) =
        Inr (w\<lparr>fullScreenMap := Some (child\<lparr>updatingHash := False\<rparr>)\<rparr>, []))"
proof (intro conjI impI)
  show "fullScreenMap (new_world m) = None"
    by (simp add: new_world_def)
next
  assume h: "\<not> opt_link (w_map w) \<and> kartographer_ready (w_map w) \<and> fullScreenMap w = None \<and>
    mapServer e \<noteq> None \<and> initialPosition (w_map w) = Some initial \<and> wf_dataLayers (w_map w)"
  let ?o = "child_options e (w_map w) position"
  let ?m1 = "fst (construct_map e ?o)"
  let ?m2 = "fst (copyDataLayers ?m1 (dataLayers (w_map w)))"
  let ?m3 = "fst (ready ?m2 (fp_center position) (fp_zoom position))"
  let ?child = "initView_false ?m3
      (case p_center initial of Some c \<Rightarrow> CLatLng c | None \<Rightarrow> CUndefined) (p_zoom initial)"
  let ?calls = "New_KartographerMap #
          (snd (construct_map e ?o) @ snd (copyDataLayers ?m1 (dataLayers (w_map w))) @
           snd (ready ?m2 (fp_center position) (fp_zoom position))) @ [Dialog_render]"
  have fs: "o_fullscreen ?o"
    by (simp add: child_options_def)
  have sc: "snd (construct_map e ?o) = [Dragging_disable, TouchZoom_disable]"
    by (simp add: construct_child [OF fs])
  have c1: "dataLayers ?m1 = []" "opt_fullscreen ?m1" "\<not> updatingHash ?m1"
    by (simp_all add: construct_child [OF fs])
  have op: "openFullScreen e ld k w (Some position) = Inr (w\<lparr>fullScreenMap := Some ?child\<rparr>, ?calls)"
    using h by (intro openFullScreen_creates) simp_all
  have d2: "dataLayers ?m2 = dataLayers (w_map w)"
    using h copyDataLayers_wf [of "dataLayers (w_map w)" ?m1]
    by (simp add: wf_dataLayers_def c1(1))
  have f2: "opt_fullscreen ?m2" "\<not> updatingHash ?m2"
    using rest_fields [OF copyDataLayers_rest, of ?m1 "dataLayers (w_map w)"] c1 by simp_all
  have f3: "dataLayers ?m3 = dataLayers (w_map w)" "opt_fullscreen ?m3" "kartographer_ready ?m3"
    "\<not> updatingHash ?m3"
    using ready_fields [of ?m2 "fp_center position" "fp_zoom position"] d2 f2 by simp_all
  have child: "dataLayers ?child = dataLayers (w_map w)" "opt_fullscreen ?child"
    "kartographer_ready ?child" "\<not> updatingHash ?child"
    using f3 by (simp_all add: initView_false_def Let_def)
  have inner: "\<not> is_loader_call c \<and> c \<noteq> New_KartographerMap"
    if "c \<in> set (snd (construct_map e ?o) @ snd (copyDataLayers ?m1 (dataLayers (w_map w))) @
           snd (ready ?m2 (fp_center position) (fp_zoom position)))" for c
  proof -
    from that consider "c \<in> set (snd (construct_map e ?o))"
      | "c \<in> set (snd (copyDataLayers ?m1 (dataLayers (w_map w))))"
      | "c \<in> set (snd (ready ?m2 (fp_center position) (fp_zoom position)))"
      by auto
    then show ?thesis
    proof cases
      case 1
      then have "c = Dragging_disable \<or> c = TouchZoom_disable"
        by (simp add: sc)
      then show ?thesis by auto
    next
      case 2
      then show ?thesis by (rule copyDataLayers_calls)
    next
      case 3
      then show ?thesis by (rule ready_calls)
    qed
  qed
  have noload: "\<forall>c\<in>set ?calls. \<not> is_loader_call c"
  proof
    fix c assume "c \<in> set ?calls"
    then consider "c = New_KartographerMap" | "c = Dialog_render"
      | "c \<in> set (snd (construct_map e ?o) @ snd (copyDataLayers ?m1 (dataLayers (w_map w))) @
           snd (ready ?m2 (fp_center position) (fp_zoom position)))"
      by auto
    then show "\<not> is_loader_call c"
      using inner by cases simp_all
  qed
  have "New_KartographerMap \<notin> set (snd (construct_map e ?o) @
           snd (copyDataLayers ?m1 (dataLayers (w_map w))) @
           snd (ready ?m2 (fp_center position) (fp_zoom position)))"
    using inner by blast
  then have one: "count_list ?calls New_KartographerMap = 1"
    by (simp add: count_list_0_iff [THEN iffD2])
  have again: "openFullScreen e ld k (w\<lparr>fullScreenMap := Some ?child\<rparr>) (Some position') =
           Inr (w\<lparr>fullScreenMap :=
                    Some (fst (setView ?child (fp_center position') (fp_zoom position') False))\<rparr>,
                snd (setView ?child (fp_center position') (fp_zoom position') False) @
                [Dialog_render])"
    using h child(4)
      openFullScreen_reuses [of "w\<lparr>fullScreenMap := Some ?child\<rparr>" ?child e ld k position']
    by simp
  show "\<exists>child calls.
         openFullScreen e ld k w (Some position) = Inr (w\<lparr>fullScreenMap := Some child\<rparr>, calls) \<and>
         dataLayers child = dataLayers (w_map w) \<and>
         (\<forall>c\<in>set calls. \<not> is_loader_call c) \<and>
         count_list calls New_KartographerMap = 1 \<and>
         opt_fullscreen child \<and> kartographer_ready child \<and> \<not> updatingHash child \<and>
         openFullScreen e ld k (w\<lparr>fullScreenMap := Some child\<rparr>) (Some position') =
           Inr (w\<lparr>fullScreenMap :=
                    Some (fst (setView child (fp_center position') (fp_zoom position') False))\<rparr>,
                snd (setView child (fp_center position') (fp_zoom position') False) @
                [Dialog_render])"
    using op child noload one again by blast
next
  assume h: "\<not> opt_link (w_map w) \<and> kartographer_ready (w_map w) \<and> fullScreenMap w = Some child \<and>
    \<not> updatingHash child"
  then show "openFullScreen e ld k w (Some position) =
        Inr (w\<lparr>fullScreenMap :=
                 Some (fst (setView child (fp_center position) (fp_zoom position) False))\<rparr>,
             snd (setView child (fp_center position) (fp_zoom position) False) @ [Dialog_render])"
    by (intro openFullScreen_reuses) simp_all
  show "New_KartographerMap \<notin>
        set (snd (setView child (fp_center position) (fp_zoom position) False) @ [Dialog_render])"
    using setView_calls [of New_KartographerMap child "fp_center position" "fp_zoom position" False]
    by auto
next
  assume h: "\<not> opt_link (w_map w) \<and> kartographer_ready (w_map w) \<and> fullScreenMap w = Some child \<and>
    updatingHash child"
  then show "openFullScreen e ld k w (Some position) =
        Inr (w\<lparr>fullScreenMap := Some (child\<lparr>updatingHash := False\<rparr>)\<rparr>, [])"
    by (intro openFullScreen_aborts) simp_all
qed


text \<open>
  The hypothesis on inline data in C5 is needed: when the promise of \<open>addDataLayer\<close> is
  rejected, \<open>initialize\<close> returns a map that is not ready.
\<close>

lemma initialize_inline_rejected:
  assumes "mapServer e \<noteq> None" "o_parentMap opts = None" "o_dataGroups opts = []"
    "o_data opts = Some d" "load ld d = Rejected"
  shows "\<exists>m n calls. initialize e ld k opts = Inr (m, n, calls) \<and> \<not> kartographer_ready m \<and>
           Fire_kartographerisready \<notin> set calls"
proof -
  have r: "\<not> kartographer_ready (fst (construct_map e opts))"
    by (simp add: construct_map_def Let_def invalidateInteractive_def toggleStaticState_def
        split_beta)
  have c: "Fire_kartographerisready \<notin> set (snd (construct_map e opts))"
    by (simp add: construct_map_def Let_def invalidateInteractive_def toggleStaticState_def
        split_beta)
  have "initialize e ld k opts =
          Inr (fst (construct_map e opts), k, snd (construct_map e opts) @ [Loader_load])"
    using assms
    by (simp add: initialize_def addDataGroups_def addDataLayer_def split_beta Let_def)
  with r c show ?thesis by simp
qed

text \<open>
  A sample configuration, a loader that answers with three groups of which the second is
  empty, a loader that rejects, and the options of a frame with these three groups.
\<close>

definition env0 :: env where
  "env0 = \<lparr>mapServer = Some ''https://maps.wikimedia.org'', fallbackZoom = 13,
           innerWidth = 1024, dialog_div = frame\<rparr>"

definition group_a :: group where
  "group_a = \<lparr>g_id = ''a'', g_attribution = ''A'', g_isExternal = False,
              g_geoJSON = Some (Features [Shape (Marker (48, 2))])\<rparr>"

definition group_b :: group where
  "group_b = \<lparr>g_id = ''b'', g_attribution = ''B'', g_isExternal = False, g_geoJSON = None\<rparr>"

definition group_c :: group where
  "group_c = \<lparr>g_id = ''c'', g_attribution = ''C'', g_isExternal = True,
              g_geoJSON = Some (Features [Shape (Marker (49, 3))])\<rparr>"

definition loader3 :: loader where
  "loader3 = \<lparr>loadGroups = (\<lambda>ids. Resolved [group_a, group_b, group_c]),
              load = (\<lambda>d. Resolved [])\<rparr>"


definition opts3 :: options where
  "opts3 = \<lparr>o_container = frame, o_center = Auto, o_zoom = Given (Num 12),
            o_dataGroups = [''a'', ''b'', ''c''], o_data = None,
            o_alwaysInteractive = False, o_fullscreen = False, o_link = False,
            o_fullScreenRoute = Some ''/map/0'', o_lang = ''en'',
            o_featureType = ''mapframe'', o_captionText = [], o_parentMap = None\<rparr>"


theorem toggleStaticState_mode_witness:
  "static (fst (toggleStaticState new_map 400 300)) = Some True \<and>
   snd (toggleStaticState new_map 400 300) =
     [Sleep_sleepMap, Sleep_disable, ScrollWheelZoom_disable, ToggleClass_static True] \<and>
   toggleStaticState static_map 400 300 = (static_map, []) \<and>
   snd (toggleStaticState static_map 1024 300) = [Sleep_enable, ToggleClass_static False] \<and>
   (\<exists>m n calls. initialize env0 loader3 0 opts3 = Inr (m, n, calls) \<and> static m = Some False)"
proof -
  have s: "static_mode 400 300" "\<not> static_mode 1024 300"
    by (simp_all add: static_mode_def)
  have n: "static new_map = None"
    by (simp add: new_map_def)
  have t: "static static_map = Some True"
    using toggleStaticState_mode [of new_map 400 300] s by (simp add: static_map_def)
  have a: "static (fst (toggleStaticState new_map 400 300)) = Some True \<and>
   snd (toggleStaticState new_map 400 300) =
     [Sleep_sleepMap, Sleep_disable, ScrollWheelZoom_disable, ToggleClass_static True]"
    using toggleStaticState_mode [of new_map 400 300] s n by simp
  have b: "toggleStaticState static_map 400 300 = (static_map, [])"
    using toggleStaticState_mode [of static_map 400 300] s t by simp
  have c: "snd (toggleStaticState static_map 1024 300) = [Sleep_enable, ToggleClass_static False]"
    using toggleStaticState_mode [of static_map 1024 300] s t by simp
  obtain m n calls where i: "initialize env0 loader3 0 opts3 = Inr (m, n, calls)"
    using initialize_ready [of env0 opts3 loader3 0] by (auto simp: env0_def opts3_def)
  have "static m = Some False"
    using toggleStaticState_mode [of _ _ _ env0 loader3 0 opts3 m n calls] i
    by (simp add: opts3_def env0_def frame_def static_mode_def)
  with i have "\<exists>m n calls. initialize env0 loader3 0 opts3 = Inr (m, n, calls) \<and> static m = Some False"
    by (intro exI [of _ m] exI [of _ n] exI [of _ calls]) simp
  with a b c show ?thesis by simp
qed


text \<open>A ready map with one data layer, and a position to open it at.\<close>

definition parent_map :: kmap where
  "parent_map = paris_map\<lparr>kartographer_ready := True,
      layers := [Shape TileLayer, LayerGroup [Shape (Marker (48, 2))]],
      dataLayers := [(''a'', \<lparr>dl_layer = LayerGroup [Shape (Marker (48, 2))],
                            dl_geoJSON = Features [Shape (Marker (48, 2))],
                            dl_options = \<lparr>lo_attribution = ''A'', lo_name = None\<rparr>\<rparr>)]\<rparr>"

definition pos0 :: fs_position where
  "pos0 = \<lparr>fp_center = CArray (Num 48) (Num 2), fp_zoom = Num 10\<rparr>"

theorem openFullScreen_child_witness:
  "(\<exists>child calls.
      openFullScreen env0 loader3 0 (new_world parent_map) (Some pos0) =
        Inr ((new_world parent_map)\<lparr>fullScreenMap := Some child\<rparr>, calls) \<and>
      dataLayers child = dataLayers parent_map \<and>
      count_list calls New_KartographerMap = 1 \<and>
      openFullScreen env0 loader3 0 ((new_world parent_map)\<lparr>fullScreenMap := Some child\<rparr>) (Some pos0) =
        Inr ((new_world parent_map)\<lparr>fullScreenMap :=
               Some (fst (setView child (fp_center pos0) (fp_zoom pos0) False))\<rparr>,
             snd (setView child (fp_center pos0) (fp_zoom pos0) False) @ [Dialog_render])) \<and>
   openFullScreen env0 loader3 0
       ((new_world parent_map)\<lparr>fullScreenMap := Some (new_map\<lparr>updatingHash := True\<rparr>)\<rparr>) (Some pos0) =
     Inr ((new_world parent_map)\<lparr>fullScreenMap := Some (new_map\<lparr>updatingHash := False\<rparr>)\<rparr>, [])"
proof -
  let ?i = "\<lparr>p_center = Some (4885837 / 100000, 229449 / 100000), p_zoom = Num 12\<rparr>"
  let ?w = "new_world parent_map"
  let ?marked = "new_map\<lparr>updatingHash := True\<rparr>"
  have p: "\<not> opt_link parent_map" "kartographer_ready parent_map"
    "initialPosition parent_map = Some ?i" "wf_dataLayers parent_map"
    by (simp_all add: parent_map_def paris_map_eq new_map_def wf_dataLayers_def)
  have w: "w_map ?w = parent_map" "fullScreenMap ?w = None"
    by (simp_all add: new_world_def)
  have e: "mapServer env0 \<noteq> None"
    by (simp add: env0_def)
  note t = openFullScreen_child [where w = ?w and e = env0 and ld = loader3 and k = 0
      and position = pos0 and position' = pos0 and initial = ?i and m = parent_map]
  have first: "\<exists>child calls.
      openFullScreen env0 loader3 0 ?w (Some pos0) = Inr (?w\<lparr>fullScreenMap := Some child\<rparr>, calls) \<and>
      dataLayers child = dataLayers (w_map ?w) \<and>
      (\<forall>c\<in>set calls. \<not> is_loader_call c) \<and>
      count_list calls New_KartographerMap = 1 \<and>
      opt_fullscreen child \<and> kartographer_ready child \<and> \<not> updatingHash child \<and>
      openFullScreen env0 loader3 0 (?w\<lparr>fullScreenMap := Some child\<rparr>) (Some pos0) =
        Inr (?w\<lparr>fullScreenMap :=
               Some (fst (setView child (fp_center pos0) (fp_zoom pos0) False))\<rparr>,
             snd (setView child (fp_center pos0) (fp_zoom pos0) False) @ [Dialog_render])"
    using t [THEN conjunct2, THEN conjunct1] p w e by simp
  then obtain child calls where c:
    "openFullScreen env0 loader3 0 ?w (Some pos0) = Inr (?w\<lparr>fullScreenMap := Some child\<rparr>, calls)"
    "dataLayers child = dataLayers (w_map ?w)"
    "count_list calls New_KartographerMap = 1"
    "openFullScreen env0 loader3 0 (?w\<lparr>fullScreenMap := Some child\<rparr>) (Some pos0) =
        Inr (?w\<lparr>fullScreenMap :=
               Some (fst (setView child (fp_center pos0) (fp_zoom pos0) False))\<rparr>,
             snd (setView child (fp_center pos0) (fp_zoom pos0) False) @ [Dialog_render])"
    by blast
  have A: "\<exists>child calls.
      openFullScreen env0 loader3 0 ?w (Some pos0) = Inr (?w\<lparr>fullScreenMap := Some child\<rparr>, calls) \<and>
      dataLayers child = dataLayers parent_map \<and>
      count_list calls New_KartographerMap = 1 \<and>
      openFullScreen env0 loader3 0 (?w\<lparr>fullScreenMap := Some child\<rparr>) (Some pos0) =
        Inr (?w\<lparr>fullScreenMap :=
               Some (fst (setView child (fp_center pos0) (fp_zoom pos0) False))\<rparr>,
             snd (setView child (fp_center pos0) (fp_zoom pos0) False) @ [Dialog_render])"
    using c w(1) by (intro exI [of _ child] exI [of _ calls]) simp
  let ?w2 = "?w\<lparr>fullScreenMap := Some ?marked\<rparr>"
  have m: "w_map ?w2 = parent_map" "fullScreenMap ?w2 = Some ?marked" "updatingHash ?marked"
    by (simp_all add: new_world_def)
  have B: "openFullScreen env0 loader3 0 ?w2 (Some pos0) =
     Inr (?w\<lparr>fullScreenMap := Some (new_map\<lparr>updatingHash := False\<rparr>)\<rparr>, [])"
    using openFullScreen_child [where w = ?w2 and e = env0 and ld = loader3 and k = 0
        and position = pos0 and child = ?marked, THEN conjunct2, THEN conjunct2, THEN conjunct2]
      p m
    by simp
  from A B show ?thesis by (rule conjI)
qed

end
